theory Spec2Isabelle
  imports Main "HOL-Library.Word" "HOL-Library.Sublist"
begin

section \<open>The bounded stream\<close>

text \<open>
  \<^verbatim>\<open>rpc/stream/rpc.go\<close> builds its three streams with \<^verbatim>\<open>NewStream[V](segmentSize, capacity)\<close>
  and writes to them with \<^verbatim>\<open>Add(vs ...V)\<close> (the specification calls the operation
  \<^verbatim>\<open>Append\<close>). The generic type \<^verbatim>\<open>Stream[V]\<close> itself is not among the source files.
\<close>

text \<open>
  Modelled from the spec: the type \<^verbatim>\<open>Stream[V]\<close>, which is missing from the sources.
  Section 3: a sequence counter (the logical position of the next item to be written), an
  ordered collection of segments each holding up to \<^verbatim>\<open>segmentSize\<close> items (oldest segment
  first), and a cap \<^verbatim>\<open>capacity\<close> on the number of retained items. The lock and the wake
  mechanism for blocked readers are left out.
\<close>

record 'a Stream =
  segmentSize :: nat
  capacity :: nat
  segments :: "'a list list"
  seq :: nat

text \<open>
  Modelled from the spec: \<^verbatim>\<open>NewStream\<close>, missing from the sources. A stream is created
  empty, with the segment size and the capacity it is given.
\<close>

definition NewStream :: "nat \<Rightarrow> nat \<Rightarrow> 'a Stream" where
  "NewStream segSize cap =
     \<lparr>segmentSize = segSize, capacity = cap, segments = [], seq = 0\<rparr>"

text \<open>
  Modelled from the spec: writing one item. Segments are allocated on demand: the item goes
  into the newest segment, or opens a new segment when the newest one already holds
  \<^verbatim>\<open>segmentSize\<close> items.
\<close>

fun push :: "nat \<Rightarrow> 'a list list \<Rightarrow> 'a \<Rightarrow> 'a list list" where
  "push n [] x = [[x]]"
| "push n [g] x = (if length g < n then [g @ [x]] else [g, [x]])"
| "push n (g # gs) x = g # push n gs x"

text \<open>
  Modelled from the spec: eviction, missing from the sources. Section 4.1: oldest-first
  eviction applies uniformly, and of a batch larger than \<^verbatim>\<open>capacity\<close> only its most recent
  \<^verbatim>\<open>capacity\<close> items are retained; section 8: the retained items are exactly the most
  recently appended \<^verbatim>\<open>capacity\<close> items. So the overflow, the number of items beyond
  \<^verbatim>\<open>capacity\<close>, leaves oldest first: a segment that lies wholly within the overflow is
  evicted as a whole (section 3), and the oldest segment that remains starts at the
  first retained item.
\<close>

fun drop_oldest :: "nat \<Rightarrow> 'a list list \<Rightarrow> 'a list list" where
  "drop_oldest n [] = []"
| "drop_oldest n (g # gs) =
     (if n = 0 then g # gs
      else if length g \<le> n then drop_oldest (n - length g) gs
      else drop n g # gs)"

definition evict :: "nat \<Rightarrow> 'a list list \<Rightarrow> 'a list list" where
  "evict cap gs = drop_oldest (length (concat gs) - cap) gs"

text \<open>
  Modelled from the spec: \<^verbatim>\<open>Add\<close>, missing from the sources (section 4.1, \<^verbatim>\<open>Append\<close>). It
  admits zero or more items as one contiguous run, advances the sequence counter by the
  number of items, and evicts oldest first as needed to respect \<^verbatim>\<open>capacity\<close>; of a batch
  larger than \<^verbatim>\<open>capacity\<close> only the most recent \<^verbatim>\<open>capacity\<close> items are retained. It never
  fails.
\<close>

definition Add :: "'a list \<Rightarrow> 'a Stream \<Rightarrow> 'a Stream" where
  "Add vs st =
     st\<lparr>segments := evict (capacity st) (foldl (push (segmentSize st)) (segments st) vs),
        seq := seq st + length vs\<rparr>"

text \<open>
  Modelled from the spec: \<^verbatim>\<open>Len\<close> (section 4.1), missing from the sources: the number of
  retained items. The retained items themselves, oldest first.
\<close>

definition items :: "'a Stream \<Rightarrow> 'a list" where
  "items st = concat (segments st)"

definition Len :: "'a Stream \<Rightarrow> nat" where
  "Len st = length (items st)"

text \<open>A sequence of \<^verbatim>\<open>Add\<close> calls, one batch per call, on a stream.\<close>

definition appends :: "'a Stream \<Rightarrow> 'a list list \<Rightarrow> 'a Stream" where
  "appends st batches = foldl (\<lambda>s vs. Add vs s) st batches"

section \<open>The stream manager of \<^verbatim>\<open>rpc/stream/rpc.go\<close>\<close>

subsection \<open>Data\<close>

text \<open>
  Byte strings, errors (an error is identified with its message), references to heap
  objects, ABCI events (a type and its attributes), and the handle of a subscription
  queue: the subscriber and the query it was opened for.
\<close>

type_synonym bytes = "8 word list"
type_synonym error = string
type_synonym ref = nat
type_synonym abci_events = "(string \<times> (string \<times> string) list) list"
type_synonym chan_id = "string \<times> string"

text \<open>
  A decoded log entry (\<^verbatim>\<open>*ethtypes.Log\<close>) is opaque to this package; three of its fields
  stand for its content.
\<close>

datatype Log = Log (Address: bytes) (Topics: "bytes list") (LogData: bytes)

text \<open>
  The parts of the consensus engine's events that \<^verbatim>\<open>start\<close> reads: the block header
  (\<^verbatim>\<open>Height\<close> is an \<^verbatim>\<open>int64\<close>), the finalize-block events, and the transaction result. The
  payload \<^verbatim>\<open>ev.Data\<close> is an interface value: a new-block payload, a transaction payload, or
  a value of some other type, kept by the name \<^verbatim>\<open>%T\<close> prints for it.
\<close>

record Header =
  Height :: "64 word"
  ProposerAddress :: bytes
  AppHash :: bytes

record EventDataNewBlock =
  Block_Header :: Header
  ResultFinalizeBlock_Events :: abci_events

record EventDataTx =
  TxResult_Height :: "64 word"
  TxResult_Result_Data :: bytes
  TxResult_Result_Events :: abci_events

datatype TMEventData =
    NewBlockData EventDataNewBlock
  | TxData EventDataTx
  | OtherData string

fun type_name :: "TMEventData \<Rightarrow> string" where
  "type_name (NewBlockData _) = ''types.EventDataNewBlock''"
| "type_name (TxData _) = ''types.EventDataTx''"
| "type_name (OtherData t) = t"

record ResultEvent =
  Query :: string
  Data :: TMEventData
  Events :: "string \<rightharpoonup> string list"

text \<open>
  The synthesized Ethereum header (a few of its fields) and the \<^verbatim>\<open>RPCHeader\<close> struct.
\<close>

record EthHeader =
  Number :: "64 word"
  Coinbase :: bytes
  Bloom :: bytes
  BaseFee :: "int option"
  Root :: bytes

record RPCHeader =
  EthHeader :: EthHeader
  Hash :: bytes

text \<open>
  What the manager does to its collaborators, in order: the calls to the event-feed client,
  to the validator-account resolver and to the log decoder, and the lines written to the
  logger (message, key, value).
\<close>

datatype effect =
    Subscribe_call string string nat
  | UnsubscribeAll_call string
  | ValidatorAccount_call "64 word" string
  | DecodeTxLogs_call bytes abci_events "64 word"
  | Logger_Error string string string

text \<open>
  The collaborators and the constants of other packages are parameters. The event-feed
  client answers a call, given everything that happened before, with an error or with
  success (\<^verbatim>\<open>client_answer\<close>). \<^verbatim>\<open>blockEvents\<close>, \<^verbatim>\<open>evmEvents\<close> and \<^verbatim>\<open>evmTxHashKey\<close> are the
  package-level variables of that name, computed from constants of other packages.
\<close>

record deps =
  blockEvents :: string
  evmEvents :: string
  evmTxHashKey :: string
  client_answer :: "effect list \<Rightarrow> effect \<Rightarrow> error option"
  validatorAccount :: "64 word \<Rightarrow> string \<Rightarrow> error + string"
  ConsAddress_String :: "bytes \<Rightarrow> string"
  AccAddressFromBech32 :: "string \<Rightarrow> error + bytes"
  BaseFeeFromEvents :: "abci_events \<Rightarrow> int option"
  EthHeaderFromTendermint :: "Header \<Rightarrow> bytes \<Rightarrow> int option \<Rightarrow> bytes \<Rightarrow> EthHeader"
  Header_Hash :: "Header \<Rightarrow> bytes"
  BytesToHash :: "bytes \<Rightarrow> bytes"
  SafeUint64 :: "64 word \<Rightarrow> error + 64 word"
  DecodeTxLogsFromEvents :: "bytes \<Rightarrow> abci_events \<Rightarrow> 64 word \<Rightarrow> error + Log list"

text \<open>
  The state outside the manager struct: the heap of streams (one store per item type; a
  stream is reached through a reference, as the \<^verbatim>\<open>*Stream[V]\<close> pointers of the source
  are), the next free reference, the record of effects, the subscriptions the event feed
  holds (a successful \<^verbatim>\<open>Subscribe\<close> adds one, a successful \<^verbatim>\<open>UnsubscribeAll\<close> drops all of a
  subscriber), and the goroutines started with \<^verbatim>\<open>go s.start(&s.wg, chBlocks, chLogs)\<close>.
\<close>

record world =
  headers :: "ref \<Rightarrow> RPCHeader Stream"
  logs :: "ref \<Rightarrow> Log Stream"
  hashes :: "ref \<Rightarrow> bytes Stream"
  next_ref :: ref
  trace :: "effect list"
  active :: "chan_id list"
  goroutines :: "(chan_id \<times> chan_id) list"

text \<open>
  The struct \<^verbatim>\<open>RPCStream\<close>: the two lazily created streams (\<^verbatim>\<open>nil\<close> is \<open>None\<close>), the
  pending-transaction stream, and the counter of the wait group \<^verbatim>\<open>wg\<close>. The fields
  \<^verbatim>\<open>evtClient\<close>, \<^verbatim>\<open>logger\<close> and \<^verbatim>\<open>validatorAccount\<close> are the collaborators above;
  \<^verbatim>\<open>txDecoder\<close> is never read.
\<close>

record RPCStream =
  headerStream :: "ref option"
  logStream :: "ref option"
  pendingTxStream :: ref
  wg :: nat

text \<open>
  A call either panics with an error or returns; both leave the manager and the world
  changed. \<^verbatim>\<open>Close\<close> either returns (with or without an error) or is still blocked in
  \<^verbatim>\<open>s.wg.Wait()\<close>, which returns only when the counter is zero.
\<close>

datatype 'a result = Panics error RPCStream world | Returns 'a RPCStream world

datatype close_result = Returned "error option" | Waiting

subsection \<open>Constants\<close>

definition streamSubscriberName :: string where
  "streamSubscriberName = ''ethermint-json-rpc''"

definition subscribBufferSize :: nat where
  "subscribBufferSize = 1024"

definition headerStreamSegmentSize :: nat where
  "headerStreamSegmentSize = 128"

definition headerStreamCapacity :: nat where
  "headerStreamCapacity = 128 * 32"

definition txStreamSegmentSize :: nat where
  "txStreamSegmentSize = 1024"

definition txStreamCapacity :: nat where
  "txStreamCapacity = 1024 * 32"

definition logStreamSegmentSize :: nat where
  "logStreamSegmentSize = 2048"

definition logStreamCapacity :: nat where
  "logStreamCapacity = 2048 * 32"

subsection \<open>The collaborators\<close>

text \<open>
  \<^verbatim>\<open>s.evtClient.Subscribe\<close>, \<^verbatim>\<open>s.evtClient.UnsubscribeAll\<close> and \<^verbatim>\<open>s.logger.Error\<close>.
\<close>

definition Subscribe ::
  "deps \<Rightarrow> string \<Rightarrow> string \<Rightarrow> nat \<Rightarrow> world \<Rightarrow> (error + chan_id) \<times> world" where
  "Subscribe d subscriber query cap w =
     (case client_answer d (trace w) (Subscribe_call subscriber query cap) of
        Some err \<Rightarrow> (Inl err, w\<lparr>trace := trace w @ [Subscribe_call subscriber query cap]\<rparr>)
      | None \<Rightarrow>
          (Inr (subscriber, query),
           w\<lparr>trace := trace w @ [Subscribe_call subscriber query cap],
             active := active w @ [(subscriber, query)]\<rparr>))"

definition UnsubscribeAll :: "deps \<Rightarrow> string \<Rightarrow> world \<Rightarrow> error option \<times> world" where
  "UnsubscribeAll d subscriber w =
     (case client_answer d (trace w) (UnsubscribeAll_call subscriber) of
        Some err \<Rightarrow> (Some err, w\<lparr>trace := trace w @ [UnsubscribeAll_call subscriber]\<rparr>)
      | None \<Rightarrow>
          (None,
           w\<lparr>trace := trace w @ [UnsubscribeAll_call subscriber],
             active := filter (\<lambda>c. fst c \<noteq> subscriber) (active w)\<rparr>))"

definition logger_Error :: "string \<Rightarrow> string \<Rightarrow> string \<Rightarrow> world \<Rightarrow> world" where
  "logger_Error msg key val w = w\<lparr>trace := trace w @ [Logger_Error msg key val]\<rparr>"

subsection \<open>Construction, lazy subscription, shutdown\<close>

text \<open>
  \<^verbatim>\<open>NewRPCStreams\<close>, lines 71 to 84: the manager starts with the pending-transaction stream
  only. \<^verbatim>\<open>NewStream\<close> allocates: the new stream is stored under the next free reference.
\<close>

definition NewRPCStreams :: "world \<Rightarrow> RPCStream \<times> world" where
  "NewRPCStreams w =
     (\<lparr>headerStream = None, logStream = None, pendingTxStream = next_ref w, wg = 0\<rparr>,
      w\<lparr>hashes := (hashes w)(next_ref w := NewStream txStreamSegmentSize txStreamCapacity),
        next_ref := next_ref w + 1\<rparr>)"

text \<open>
  \<^verbatim>\<open>initSubscriptions\<close>, lines 86 to 111. The two streams are stored in the manager before
  the first subscription is requested. \<^verbatim>\<open>panic(err)\<close> of line 107 is the error of the
  second \<^verbatim>\<open>Subscribe\<close>: the error of \<^verbatim>\<open>UnsubscribeAll\<close> lives in the inner \<^verbatim>\<open>if\<close> only.
\<close>

definition initSubscriptions :: "deps \<Rightarrow> RPCStream \<Rightarrow> world \<Rightarrow> unit result" where
  "initSubscriptions d s w =
     (if headerStream s \<noteq> None then Returns () s w
      else
        let h = next_ref w;
            l = next_ref w + 1;
            s1 = s\<lparr>headerStream := Some h, logStream := Some l\<rparr>;
            w1 = w\<lparr>headers := (headers w)(h := NewStream headerStreamSegmentSize headerStreamCapacity),
                   logs := (logs w)(l := NewStream logStreamSegmentSize logStreamCapacity),
                   next_ref := next_ref w + 2\<rparr>
        in case Subscribe d streamSubscriberName (blockEvents d) subscribBufferSize w1 of
             (Inl err, w2) \<Rightarrow> Panics err s1 w2
           | (Inr chBlocks, w2) \<Rightarrow>
               (case Subscribe d streamSubscriberName (evmEvents d) subscribBufferSize w2 of
                  (Inl err, w3) \<Rightarrow>
                    (case UnsubscribeAll d streamSubscriberName w3 of
                       (Some err', w4) \<Rightarrow>
                         Panics err s1 (logger_Error ''failed to unsubscribe'' ''err'' err' w4)
                     | (None, w4) \<Rightarrow> Panics err s1 w4)
                | (Inr chLogs, w3) \<Rightarrow>
                    Returns () s1 (w3\<lparr>goroutines := goroutines w3 @ [(chBlocks, chLogs)]\<rparr>)))"

text \<open>
  \<^verbatim>\<open>Close\<close>, lines 113 to 124. \<^verbatim>\<open>s.wg.Wait()\<close> lets the call through when the counter of
  the wait group is zero; otherwise the call is blocked there.
\<close>

definition Close :: "deps \<Rightarrow> RPCStream \<Rightarrow> world \<Rightarrow> close_result \<times> RPCStream \<times> world" where
  "Close d s w =
     (if headerStream s = None then (Returned None, s, w)
      else
        case UnsubscribeAll d streamSubscriberName w of
          (Some err, w1) \<Rightarrow> (Returned (Some err), s, w1)
        | (None, w1) \<Rightarrow> (if wg s = 0 then (Returned None, s, w1) else (Waiting, s, w1)))"

text \<open>
  \<^verbatim>\<open>HeaderStream\<close>, \<^verbatim>\<open>PendingTxStream\<close>, \<^verbatim>\<open>LogStream\<close> and \<^verbatim>\<open>ListenPendingTx\<close>, lines 126 to
  143. The accessors return the pointer held by the manager.
\<close>

definition HeaderStream :: "deps \<Rightarrow> RPCStream \<Rightarrow> world \<Rightarrow> ref option result" where
  "HeaderStream d s w =
     (case initSubscriptions d s w of
        Panics err s1 w1 \<Rightarrow> Panics err s1 w1
      | Returns _ s1 w1 \<Rightarrow> Returns (headerStream s1) s1 w1)"

definition PendingTxStream :: "RPCStream \<Rightarrow> ref" where
  "PendingTxStream s = pendingTxStream s"

definition LogStream :: "deps \<Rightarrow> RPCStream \<Rightarrow> world \<Rightarrow> ref option result" where
  "LogStream d s w =
     (case initSubscriptions d s w of
        Panics err s1 w1 \<Rightarrow> Panics err s1 w1
      | Returns _ s1 w1 \<Rightarrow> Returns (logStream s1) s1 w1)"

definition ListenPendingTx :: "bytes \<Rightarrow> RPCStream \<Rightarrow> world \<Rightarrow> RPCStream \<times> world" where
  "ListenPendingTx hash s w =
     (s, w\<lparr>hashes := (hashes w)(PendingTxStream s := Add [hash] (hashes w (PendingTxStream s)))\<rparr>)"

subsection \<open>The demultiplexing loop\<close>

text \<open>
  A receive-only channel as \<^verbatim>\<open>start\<close> sees it: the events still to be delivered on it, and
  whether the event feed closes it after the last one (otherwise it stays open and empty
  for ever). \<^verbatim>\<open>NilChan\<close> is the \<^verbatim>\<open>nil\<close> channel the loop assigns once it has seen the
  closure. A channel is ready when a receive on it would not block. \<^verbatim>\<open>select\<close> chooses
  among the ready cases; the list \<open>sched\<close> resolves every such choice (\<open>True\<close>: the
  new-block case), and an exhausted list prefers the new-block case.
\<close>

datatype 'a chan = NilChan | Chan "'a list" bool

fun ready :: "'a chan \<Rightarrow> bool" where
  "ready NilChan = False"
| "ready (Chan [] closes) = closes"
| "ready (Chan (x # xs) closes) = True"

fun chan_size :: "'a chan \<Rightarrow> nat" where
  "chan_size NilChan = 0"
| "chan_size (Chan xs closes) = Suc (length xs)"

fun pick :: "bool list \<Rightarrow> bool" where
  "pick [] = True"
| "pick (b # bs) = b"

text \<open>
  How the body of a \<^verbatim>\<open>select\<close> case ends: with \<^verbatim>\<open>continue\<close>, by falling out of the
  \<^verbatim>\<open>select\<close> to the test \<^verbatim>\<open>chBlocks == nil && chLogs == nil\<close>, or by calling \<^verbatim>\<open>Add\<close> on a
  \<^verbatim>\<open>nil\<close> stream, which panics. The loop ends by leaving through \<^verbatim>\<open>break\<close>, by blocking for
  ever in \<^verbatim>\<open>select\<close>, or by that panic.
\<close>

datatype flow = Continue | EndSelect | NilDereference

datatype loop_end = Exited | Blocked | Crashed

definition Bloom_zero :: bytes where
  "Bloom_zero = replicate 256 0"

text \<open>
  The body of \<^verbatim>\<open>case ev, ok := <-chBlocks\<close> for a received event (\<^verbatim>\<open>ok\<close> is true), lines
  166 to 190.
\<close>

definition case_chBlocks :: "deps \<Rightarrow> ResultEvent \<Rightarrow> RPCStream \<Rightarrow> world \<Rightarrow> flow \<times> world" where
  "case_chBlocks d ev s w =
     (case Data ev of
        NewBlockData data \<Rightarrow>
          let baseFee = BaseFeeFromEvents d (ResultFinalizeBlock_Events data);
              consAddress = ConsAddress_String d (ProposerAddress (Block_Header data));
              w1 = w\<lparr>trace := trace w @
                     [ValidatorAccount_call (Height (Block_Header data)) consAddress]\<rparr>
          in (case validatorAccount d (Height (Block_Header data)) consAddress of
                Inl err \<Rightarrow>
                  (Continue, logger_Error ''failed to get validator account'' ''err'' err w1)
              | Inr res \<Rightarrow>
                  (case AccAddressFromBech32 d res of
                     Inl err \<Rightarrow>
                       (Continue,
                        logger_Error ''failed to convert validator account'' ''err'' err w1)
                   | Inr validator \<Rightarrow>
                       let header = EthHeaderFromTendermint d (Block_Header data) Bloom_zero
                                      baseFee validator;
                           item = \<lparr>EthHeader = header,
                                   Hash = BytesToHash d (Header_Hash d (Block_Header data))\<rparr>
                       in (case headerStream s of
                             None \<Rightarrow> (NilDereference, w1)
                           | Some h \<Rightarrow>
                               (EndSelect,
                                w1\<lparr>headers := (headers w1)(h := Add [item] (headers w1 h))\<rparr>))))
      | _ \<Rightarrow>
          (Continue,
           logger_Error ''event data type mismatch'' ''type'' (type_name (Data ev)) w))"

text \<open>
  The body of \<^verbatim>\<open>case ev, ok := <-chLogs\<close> for a received event, lines 198 to 219.
\<close>

definition case_chLogs :: "deps \<Rightarrow> ResultEvent \<Rightarrow> RPCStream \<Rightarrow> world \<Rightarrow> flow \<times> world" where
  "case_chLogs d ev s w =
     (case Events ev (evmTxHashKey d) of
        None \<Rightarrow> (Continue, w)
      | Some _ \<Rightarrow>
          (case Data ev of
             TxData dataTx \<Rightarrow>
               (case SafeUint64 d (TxResult_Height dataTx) of
                  Inl err \<Rightarrow> (Continue, w)
                | Inr height \<Rightarrow>
                    let w1 = w\<lparr>trace := trace w @
                               [DecodeTxLogs_call (TxResult_Result_Data dataTx)
                                  (TxResult_Result_Events dataTx) height]\<rparr>
                    in (case DecodeTxLogsFromEvents d (TxResult_Result_Data dataTx)
                               (TxResult_Result_Events dataTx) height of
                          Inl err \<Rightarrow>
                            (Continue,
                             logger_Error ''fail to decode evm tx response'' ''error'' err w1)
                        | Inr txLogs \<Rightarrow>
                            (case logStream s of
                               None \<Rightarrow> (NilDereference, w1)
                             | Some l \<Rightarrow>
                                 (EndSelect,
                                  w1\<lparr>logs := (logs w1)(l := Add txLogs (logs w1 l))\<rparr>))))
           | _ \<Rightarrow>
               (Continue,
                logger_Error ''event data type mismatch'' ''type'' (type_name (Data ev)) w)))"

text \<open>
  The loop of \<^verbatim>\<open>start\<close>, lines 158 to 225. A receive from a closed channel (\<^verbatim>\<open>ok\<close> is
  false) sets the variable to \<^verbatim>\<open>nil\<close> and leaves the \<^verbatim>\<open>select\<close>; the loop is left when both
  variables are \<^verbatim>\<open>nil\<close>.
\<close>

definition both_nil :: "'a chan \<Rightarrow> 'a chan \<Rightarrow> bool" where
  "both_nil chBlocks chLogs = (chBlocks = NilChan \<and> chLogs = NilChan)"

function start_loop ::
  "deps \<Rightarrow> bool list \<Rightarrow> ResultEvent chan \<Rightarrow> ResultEvent chan \<Rightarrow> RPCStream \<Rightarrow> world
   \<Rightarrow> loop_end \<times> world" where
  "start_loop d sched chBlocks chLogs s w =
     (if ready chBlocks \<and> (if ready chLogs then pick sched else True) then
        (case chBlocks of
           Chan (ev # evs) closes \<Rightarrow>
             (case case_chBlocks d ev s w of
                (NilDereference, w1) \<Rightarrow> (Crashed, w1)
              | (Continue, w1) \<Rightarrow> start_loop d (tl sched) (Chan evs closes) chLogs s w1
              | (EndSelect, w1) \<Rightarrow>
                  (if both_nil (Chan evs closes) chLogs then (Exited, w1)
                   else start_loop d (tl sched) (Chan evs closes) chLogs s w1))
         | _ \<Rightarrow>
             (if both_nil NilChan chLogs then (Exited, w)
              else start_loop d (tl sched) NilChan chLogs s w))
      else if ready chLogs then
        (case chLogs of
           Chan (ev # evs) closes \<Rightarrow>
             (case case_chLogs d ev s w of
                (NilDereference, w1) \<Rightarrow> (Crashed, w1)
              | (Continue, w1) \<Rightarrow> start_loop d (tl sched) chBlocks (Chan evs closes) s w1
              | (EndSelect, w1) \<Rightarrow>
                  (if both_nil chBlocks (Chan evs closes) then (Exited, w1)
                   else start_loop d (tl sched) chBlocks (Chan evs closes) s w1))
         | _ \<Rightarrow>
             (if both_nil chBlocks NilChan then (Exited, w)
              else start_loop d (tl sched) chBlocks NilChan s w))
      else (Blocked, w))"
  by pat_completeness auto
termination
proof (relation "measure (\<lambda>(d, sched, chBlocks, chLogs, s, w). chan_size chBlocks + chan_size chLogs)")
qed (auto split: chan.splits list.splits)

text \<open>
  \<^verbatim>\<open>start\<close>: \<^verbatim>\<open>wg.Add(1)\<close>, the loop, and the deferred function (\<^verbatim>\<open>wg.Done()\<close>, then
  \<^verbatim>\<open>UnsubscribeAll\<close>, whose error is logged), which runs when the loop is left and when
  it panics, and never while the loop is blocked.
\<close>

definition start ::
  "deps \<Rightarrow> bool list \<Rightarrow> ResultEvent chan \<Rightarrow> ResultEvent chan \<Rightarrow> RPCStream \<Rightarrow> world
   \<Rightarrow> loop_end \<times> RPCStream \<times> world" where
  "start d sched chBlocks chLogs s w =
     (case start_loop d sched chBlocks chLogs (s\<lparr>wg := wg s + 1\<rparr>) w of
        (Blocked, w1) \<Rightarrow> (Blocked, s\<lparr>wg := wg s + 1\<rparr>, w1)
      | (fin, w1) \<Rightarrow>
          (case UnsubscribeAll d streamSubscriberName w1 of
             (Some err, w2) \<Rightarrow>
               (fin, s\<lparr>wg := wg s + 1 - 1\<rparr>, logger_Error ''failed to unsubscribe'' ''err'' err w2)
           | (None, w2) \<Rightarrow> (fin, s\<lparr>wg := wg s + 1 - 1\<rparr>, w2)))"

section \<open>Notions used to state the properties\<close>

declare start_loop.simps [simp del]

text \<open>
  The reading of "the retained items are exactly the most recently appended \<^verbatim>\<open>capacity\<close>
  items (or all items if fewer have been appended)", in the words of the specification.
\<close>

definition most_recent :: "nat \<Rightarrow> 'a list \<Rightarrow> 'a list" where
  "most_recent cap xs = drop (length xs - cap) xs"

text \<open>
  Whether the event feed closes a channel, and the events queued on it.
\<close>

fun closes :: "'a chan \<Rightarrow> bool" where
  "closes NilChan = True"
| "closes (Chan xs c) = c"

fun queued :: "'a chan \<Rightarrow> 'a list" where
  "queued NilChan = []"
| "queued (Chan xs c) = xs"

text \<open>
  The order in which the loop of \<^verbatim>\<open>start\<close> receives the events of its two queues (\<open>Inl\<close>:
  from \<^verbatim>\<open>chBlocks\<close>, \<open>Inr\<close>: from \<^verbatim>\<open>chLogs\<close>) under the choices \<open>sched\<close>, and what handling one
  received event does to the world.
\<close>

function recv_order :: "bool list \<Rightarrow> 'a chan \<Rightarrow> 'a chan \<Rightarrow> ('a + 'a) list" where
  "recv_order sched chBlocks chLogs =
     (if ready chBlocks \<and> (if ready chLogs then pick sched else True) then
        (case chBlocks of
           Chan (ev # evs) c \<Rightarrow> Inl ev # recv_order (tl sched) (Chan evs c) chLogs
         | _ \<Rightarrow> (if both_nil NilChan chLogs then [] else recv_order (tl sched) NilChan chLogs))
      else if ready chLogs then
        (case chLogs of
           Chan (ev # evs) c \<Rightarrow> Inr ev # recv_order (tl sched) chBlocks (Chan evs c)
         | _ \<Rightarrow> (if both_nil chBlocks NilChan then [] else recv_order (tl sched) chBlocks NilChan))
      else [])"
  by pat_completeness auto
termination
proof (relation "measure (\<lambda>(sched, chBlocks, chLogs). chan_size chBlocks + chan_size chLogs)")
qed (auto split: chan.splits list.splits)

declare recv_order.simps [simp del]

fun handle :: "deps \<Rightarrow> RPCStream \<Rightarrow> world \<Rightarrow> ResultEvent + ResultEvent \<Rightarrow> world" where
  "handle d s w (Inl ev) = snd (case_chBlocks d ev s w)"
| "handle d s w (Inr ev) = snd (case_chLogs d ev s w)"

text \<open>
  How a loop that does not panic ends on two channels: it leaves through \<^verbatim>\<open>break\<close> when
  both are closed by the feed, and blocks in \<^verbatim>\<open>select\<close> otherwise (also when both are
  \<^verbatim>\<open>nil\<close> from the start). Which case \<^verbatim>\<open>select\<close> takes.
\<close>

definition expected_end :: "'a chan \<Rightarrow> 'a chan \<Rightarrow> loop_end" where
  "expected_end chBlocks chLogs =
     (if closes chBlocks \<and> closes chLogs \<and> \<not> both_nil chBlocks chLogs then Exited else Blocked)"

definition takes_blocks :: "bool list \<Rightarrow> 'a chan \<Rightarrow> 'a chan \<Rightarrow> bool" where
  "takes_blocks sched chBlocks chLogs =
     (ready chBlocks \<and> (if ready chLogs then pick sched else True))"

definition takes_logs :: "bool list \<Rightarrow> 'a chan \<Rightarrow> 'a chan \<Rightarrow> bool" where
  "takes_logs sched chBlocks chLogs =
     (\<not> takes_blocks sched chBlocks chLogs \<and> ready chLogs)"

text \<open>
  The first run of \<^verbatim>\<open>initSubscriptions\<close>: the two streams it allocates, the manager it
  leaves, the three calls it can make to the event-feed client, and the world after both
  subscriptions succeeded.
\<close>

definition init_world :: "world \<Rightarrow> world" where
  "init_world w =
     w\<lparr>headers := (headers w)(next_ref w := NewStream headerStreamSegmentSize headerStreamCapacity),
       logs := (logs w)(next_ref w + 1 := NewStream logStreamSegmentSize logStreamCapacity),
       next_ref := next_ref w + 2\<rparr>"

definition init_manager :: "RPCStream \<Rightarrow> world \<Rightarrow> RPCStream" where
  "init_manager s w = s\<lparr>headerStream := Some (next_ref w), logStream := Some (next_ref w + 1)\<rparr>"

definition sub_blocks :: "deps \<Rightarrow> effect" where
  "sub_blocks d = Subscribe_call streamSubscriberName (blockEvents d) subscribBufferSize"

definition sub_evm :: "deps \<Rightarrow> effect" where
  "sub_evm d = Subscribe_call streamSubscriberName (evmEvents d) subscribBufferSize"

definition unsub_all :: effect where
  "unsub_all = UnsubscribeAll_call streamSubscriberName"

definition subscribed_world :: "deps \<Rightarrow> world \<Rightarrow> world" where
  "subscribed_world d w =
     (init_world w)\<lparr>trace := trace w @ [sub_blocks d, sub_evm d],
        active := active w @ [(streamSubscriberName, blockEvents d),
                              (streamSubscriberName, evmEvents d)],
        goroutines := goroutines w @
           [((streamSubscriberName, blockEvents d), (streamSubscriberName, evmEvents d))]\<rparr>"

fun result_world :: "'a result \<Rightarrow> world" where
  "result_world (Panics err s w) = w"
| "result_world (Returns x s w) = w"

definition panics_with :: "error \<Rightarrow> 'a result \<Rightarrow> bool" where
  "panics_with err r = (case r of Panics e s w \<Rightarrow> e = err | Returns x s w \<Rightarrow> False)"

text \<open>
  The lines written to the logger, the calls made to the decoder, and an event that is
  skipped: the case ends with \<^verbatim>\<open>continue\<close>, no stream changes, and the logger receives
  exactly the given lines.
\<close>

fun is_logger :: "effect \<Rightarrow> bool" where
  "is_logger (Logger_Error msg key val) = True"
| "is_logger _ = False"

fun is_decode :: "effect \<Rightarrow> bool" where
  "is_decode (DecodeTxLogs_call dat evs height) = True"
| "is_decode _ = False"

definition logged :: "world \<Rightarrow> effect list" where
  "logged w = filter is_logger (trace w)"

definition skipped :: "world \<Rightarrow> flow \<times> world \<Rightarrow> effect list \<Rightarrow> bool" where
  "skipped w r entries =
     (fst r = Continue \<and> headers (snd r) = headers w \<and> logs (snd r) = logs w
      \<and> hashes (snd r) = hashes w \<and> logged (snd r) = logged w @ entries)"

text \<open>
  A sequence of \<^verbatim>\<open>ListenPendingTx\<close> calls.
\<close>

fun ingest_all :: "bytes list \<Rightarrow> RPCStream \<Rightarrow> world \<Rightarrow> RPCStream \<times> world" where
  "ingest_all [] s w = (s, w)"
| "ingest_all (h # hs) s w = (case ListenPendingTx h s w of (s1, w1) \<Rightarrow> ingest_all hs s1 w1)"

subsection \<open>Sample collaborators, events and states\<close>

text \<open>
  Concrete collaborators for the examples: an empty world; collaborators whose resolver
  fails for an empty proposer address and yields an unparsable account at height 0, whose
  height conversion fails for negative heights, and whose decoder fails on empty result
  data and otherwise yields one log per byte; and four event-feed clients.
\<close>

definition sample_world :: world where
  "sample_world =
     \<lparr>headers = (\<lambda>r. NewStream 0 0), logs = (\<lambda>r. NewStream 0 0),
      hashes = (\<lambda>r. NewStream 0 0), next_ref = 0, trace = [], active = [],
      goroutines = []\<rparr>"

definition sample_deps :: "(effect list \<Rightarrow> effect \<Rightarrow> error option) \<Rightarrow> deps" where
  "sample_deps answer =
     \<lparr>blockEvents = ''tm.event=NewBlock'',
      evmEvents = ''tm.event=Tx AND message.module=evm'',
      evmTxHashKey = ''ethereum_tx.ethereumTxHash'',
      client_answer = answer,
      validatorAccount =
        (\<lambda>height cons. if cons = [] then Inl ''validator not found''
           else if height = 0 then Inr ''?'' else Inr ''eth1validator''),
      ConsAddress_String = (\<lambda>b. if b = [] then [] else ''ethvalcons1proposer''),
      AccAddressFromBech32 =
        (\<lambda>a. if a = ''?'' then Inl ''decoding bech32 failed'' else Inr [1, 2, 3]),
      BaseFeeFromEvents = (\<lambda>evs. None),
      EthHeaderFromTendermint =
        (\<lambda>h bloom fee v.
           \<lparr>Number = Height h, Coinbase = v, Bloom = bloom, BaseFee = fee, Root = AppHash h\<rparr>),
      Header_Hash = (\<lambda>h. AppHash h),
      BytesToHash = (\<lambda>b. b),
      SafeUint64 = (\<lambda>v. if sint v < 0 then Inl ''negative value'' else Inr v),
      DecodeTxLogsFromEvents =
        (\<lambda>data evs height. if data = [] then Inl ''empty tx response''
           else Inr (map (\<lambda>b. Log [b] [] []) data))\<rparr>"

definition all_ok :: "effect list \<Rightarrow> effect \<Rightarrow> error option" where
  "all_ok tr c = None"

definition unsubscribe_fails :: "effect list \<Rightarrow> effect \<Rightarrow> error option" where
  "unsubscribe_fails tr c =
     (case c of UnsubscribeAll_call sub \<Rightarrow> Some ''event feed unreachable'' | _ \<Rightarrow> None)"

definition second_subscribe_fails :: "effect list \<Rightarrow> effect \<Rightarrow> error option" where
  "second_subscribe_fails tr c =
     (case c of Subscribe_call sub q n \<Rightarrow> (if tr = [] then None else Some ''subscription limit reached'')
      | _ \<Rightarrow> None)"

definition first_subscribe_fails :: "effect list \<Rightarrow> effect \<Rightarrow> error option" where
  "first_subscribe_fails tr c =
     (case c of Subscribe_call sub q n \<Rightarrow> Some ''event feed not running'' | _ \<Rightarrow> None)"

text \<open>
  Sample events: a transaction event with given attributes, height and result data; the
  attributes of an EVM transaction; a new-block event; and a new-block payload arriving
  with the attributes of an EVM transaction.
\<close>

definition tx_event :: "(string \<rightharpoonup> string list) \<Rightarrow> 64 word \<Rightarrow> bytes \<Rightarrow> ResultEvent" where
  "tx_event attrs height data =
     \<lparr>Query = ''tm.event=Tx AND message.module=evm'',
      Data = TxData \<lparr>TxResult_Height = height, TxResult_Result_Data = data,
                     TxResult_Result_Events = []\<rparr>,
      Events = attrs\<rparr>"

definition evm_attrs :: "string \<rightharpoonup> string list" where
  "evm_attrs = [''ethereum_tx.ethereumTxHash'' \<mapsto> [''0xabc'']]"

definition block_event :: "64 word \<Rightarrow> bytes \<Rightarrow> ResultEvent" where
  "block_event height proposer =
     \<lparr>Query = ''tm.event=NewBlock'',
      Data = NewBlockData
        \<lparr>Block_Header = \<lparr>Height = height, ProposerAddress = proposer, AppHash = [7]\<rparr>,
         ResultFinalizeBlock_Events = []\<rparr>,
      Events = Map.empty\<rparr>"

definition mistyped_tx_event :: ResultEvent where
  "mistyped_tx_event = (block_event 5 [9])\<lparr>Events := evm_attrs\<rparr>"

text \<open>
  Sample states: the manager after construction and a first \<^verbatim>\<open>HeaderStream()\<close>; and the
  same once \<^verbatim>\<open>start\<close> runs and is blocked on two open, empty queues.
\<close>

definition subscribed_state :: "deps \<Rightarrow> RPCStream \<times> world" where
  "subscribed_state d =
     (case NewRPCStreams sample_world of
        (s0, w0) \<Rightarrow>
          (case HeaderStream d s0 w0 of
             Panics err s1 w1 \<Rightarrow> (s1, w1)
           | Returns h s1 w1 \<Rightarrow> (s1, w1)))"

definition running_state :: "deps \<Rightarrow> RPCStream \<times> world" where
  "running_state d =
     (case NewRPCStreams sample_world of
        (s0, w0) \<Rightarrow>
          (case HeaderStream d s0 w0 of
             Panics err s1 w1 \<Rightarrow> (s1, w1)
           | Returns h s1 w1 \<Rightarrow> snd (start d [] (Chan [] False) (Chan [] False) s1 w1)))"

section \<open>Properties of the stream model\<close>

lemma concat_push: "concat (push n gs x) = concat gs @ [x]"
  by (induction n gs x rule: push.induct) simp_all

lemma concat_foldl_push: "concat (foldl (push n) gs vs) = concat gs @ vs"
  by (induction vs arbitrary: gs) (simp_all add: concat_push)

lemma concat_drop_oldest: "concat (drop_oldest n gs) = drop n (concat gs)"
  by (induction gs arbitrary: n) simp_all

lemma concat_evict: "concat (evict c gs) = most_recent c (concat gs)"
  by (simp add: evict_def most_recent_def concat_drop_oldest)

lemma most_recent_suffix: "suffix (most_recent c xs) xs"
  by (simp add: most_recent_def suffix_drop)

lemma most_recent_length_le: "length (most_recent c xs) \<le> c"
  by (simp add: most_recent_def)

lemma most_recent_fits: "length xs \<le> c \<Longrightarrow> most_recent c xs = xs"
  by (simp add: most_recent_def)

lemma most_recent_append: "most_recent c (most_recent c xs @ vs) = most_recent c (xs @ vs)"
proof (cases "length xs \<le> c")
  case True
  then show ?thesis by (simp add: most_recent_def)
next
  case False
  then have "length (drop (length xs - c) xs) = c" by simp
  then have "most_recent c (most_recent c xs @ vs)
      = drop (length vs) (drop (length xs - c) xs @ vs)"
    by (simp add: most_recent_def)
  also have "\<dots> = drop (length vs) (drop (length xs - c) (xs @ vs))"
    by simp
  also have "\<dots> = drop (length vs + (length xs - c)) (xs @ vs)"
    by (simp only: drop_drop)
  also from False have "length vs + (length xs - c) = length (xs @ vs) - c"
    by simp
  finally show ?thesis by (simp add: most_recent_def)
qed

lemma evict_suffix: "suffix (concat (evict c gs)) (concat gs)"
  by (simp add: concat_evict most_recent_suffix)

lemma evict_length_le: "length (concat (evict c gs)) \<le> c"
  by (simp add: concat_evict most_recent_length_le)

lemma evict_fits: "length (concat gs) \<le> c \<Longrightarrow> evict c gs = gs"
  by (cases gs) (simp_all add: evict_def)

lemma items_Add: "items (Add vs st) = most_recent (capacity st) (items st @ vs)"
  by (simp add: items_def Add_def concat_evict concat_foldl_push)

lemma items_Add_suffix: "suffix (items (Add vs st)) (items st @ vs)"
proof -
  have "suffix (concat (evict (capacity st) (foldl (push (segmentSize st)) (segments st) vs)))
          (concat (foldl (push (segmentSize st)) (segments st) vs))"
    by (rule evict_suffix)
  then show ?thesis
    by (simp add: items_def Add_def concat_foldl_push)
qed

lemma Len_Add_le: "Len (Add vs st) \<le> capacity st"
  by (simp add: Len_def items_def Add_def evict_length_le)

lemma items_Add_fits:
  "length (items st) + length vs \<le> capacity st \<Longrightarrow> items (Add vs st) = items st @ vs"
  by (simp add: items_def Add_def evict_fits concat_foldl_push)

lemma Add_params [simp]:
  "capacity (Add vs st) = capacity st" "segmentSize (Add vs st) = segmentSize st"
  "seq (Add vs st) = seq st + length vs"
  by (simp_all add: Add_def)

lemma appends_Nil [simp]: "appends st [] = st"
  by (simp add: appends_def)

lemma appends_snoc [simp]: "appends st (bs @ [vs]) = Add vs (appends st bs)"
  by (simp add: appends_def)

lemma appends_params [simp]:
  "capacity (appends st bs) = capacity st" "segmentSize (appends st bs) = segmentSize st"
  by (induction bs rule: rev_induct) simp_all

lemma appends_seq: "seq (appends st bs) = seq st + length (concat bs)"
  by (induction bs rule: rev_induct) simp_all

lemma items_appends_suffix: "suffix (items (appends st bs)) (items st @ concat bs)"
proof (induction bs rule: rev_induct)
  case Nil
  show ?case by simp
next
  case (snoc vs bs)
  have "suffix (items (Add vs (appends st bs))) (items (appends st bs) @ vs)"
    by (rule items_Add_suffix)
  moreover from snoc have "suffix (items (appends st bs) @ vs) ((items st @ concat bs) @ vs)"
    by (auto simp: suffix_def)
  ultimately show ?case
    by (auto intro: suffix_order.trans)
qed

lemma Len_appends_le: "Len st \<le> capacity st \<Longrightarrow> Len (appends st bs) \<le> capacity st"
proof (induction bs rule: rev_induct)
  case Nil
  then show ?case by simp
next
  case (snoc vs bs)
  have "Len (Add vs (appends st bs)) \<le> capacity (appends st bs)"
    by (rule Len_Add_le)
  then show ?case by simp
qed

lemma items_appends_fits:
  "length (items st) + length (concat bs) \<le> capacity st \<Longrightarrow>
   items (appends st bs) = items st @ concat bs"
proof (induction bs rule: rev_induct)
  case Nil
  show ?case by simp
next
  case (snoc vs bs)
  then have prev: "items (appends st bs) = items st @ concat bs"
    by simp
  with snoc.prems have "length (items (appends st bs)) + length vs \<le> capacity (appends st bs)"
    by simp
  then have "items (Add vs (appends st bs)) = items (appends st bs) @ vs"
    by (rule items_Add_fits)
  with prev show ?case by simp
qed

lemma NewStream_simps [simp]:
  "segmentSize (NewStream n c) = n" "capacity (NewStream n c) = c"
  "segments (NewStream n c) = []" "seq (NewStream n c) = 0" "items (NewStream n c) = []"
  by (simp_all add: NewStream_def items_def)

lemma items_appends:
  "items (appends st bs) = most_recent (capacity st) (items st @ concat bs)"
  if "length (items st) \<le> capacity st"
proof (induction bs rule: rev_induct)
  case Nil
  from that show ?case by (simp add: most_recent_fits)
next
  case (snoc vs bs)
  have "items (Add vs (appends st bs))
      = most_recent (capacity st) (most_recent (capacity st) (items st @ concat bs) @ vs)"
    by (simp add: items_Add snoc)
  then show ?case
    by (simp add: most_recent_append)
qed
section \<open>Properties of the manager\<close>

subsection \<open>Lazy subscription\<close>

lemma initSubscriptions_done:
  "headerStream s \<noteq> None \<Longrightarrow> initSubscriptions d s w = Returns () s w"
  by (simp add: initSubscriptions_def)

lemma initSubscriptions_success:
  assumes "headerStream s = None"
    and "client_answer d (trace w) (sub_blocks d) = None"
    and "client_answer d (trace w @ [sub_blocks d]) (sub_evm d) = None"
  shows "initSubscriptions d s w =
     Returns () (init_manager s w)
       ((init_world w)\<lparr>trace := trace w @ [sub_blocks d, sub_evm d],
          active := active w @ [(streamSubscriberName, blockEvents d),
                                (streamSubscriberName, evmEvents d)],
          goroutines := goroutines w @
             [((streamSubscriberName, blockEvents d), (streamSubscriberName, evmEvents d))]\<rparr>)"
  using assms
  by (simp add: initSubscriptions_def Subscribe_def init_world_def init_manager_def
      sub_blocks_def sub_evm_def Let_def)

lemma initSubscriptions_first_fails:
  assumes "headerStream s = None"
    and "client_answer d (trace w) (sub_blocks d) = Some err"
  shows "initSubscriptions d s w =
     Panics err (init_manager s w) ((init_world w)\<lparr>trace := trace w @ [sub_blocks d]\<rparr>)"
  using assms
  by (simp add: initSubscriptions_def Subscribe_def init_world_def init_manager_def
      sub_blocks_def Let_def)

lemma initSubscriptions_second_fails:
  assumes "headerStream s = None"
    and "client_answer d (trace w) (sub_blocks d) = None"
    and "client_answer d (trace w @ [sub_blocks d]) (sub_evm d) = Some err"
  shows "initSubscriptions d s w =
     Panics err (init_manager s w)
       (case client_answer d (trace w @ [sub_blocks d, sub_evm d]) unsub_all of
          Some err' \<Rightarrow>
            (init_world w)\<lparr>trace := trace w @ [sub_blocks d, sub_evm d, unsub_all,
                 Logger_Error ''failed to unsubscribe'' ''err'' err'],
               active := active w @ [(streamSubscriberName, blockEvents d)]\<rparr>
        | None \<Rightarrow>
            (init_world w)\<lparr>trace := trace w @ [sub_blocks d, sub_evm d, unsub_all],
               active := filter (\<lambda>c. fst c \<noteq> streamSubscriberName) (active w)\<rparr>)"
  using assms
  by (simp add: initSubscriptions_def Subscribe_def UnsubscribeAll_def init_world_def
      init_manager_def sub_blocks_def sub_evm_def unsub_all_def Let_def logger_Error_def
      split: option.splits)

subsection \<open>Pending transactions\<close>

lemma ListenPendingTx_eq:
  "ListenPendingTx h s w =
     (s, w\<lparr>hashes := (hashes w)(pendingTxStream s := Add [h] (hashes w (pendingTxStream s)))\<rparr>)"
  by (simp add: ListenPendingTx_def PendingTxStream_def)

lemma ingest_all_eq:
  "ingest_all hs s w =
     (s, w\<lparr>hashes := (hashes w)(pendingTxStream s :=
              appends (hashes w (pendingTxStream s)) (map (\<lambda>h. [h]) hs))\<rparr>)"
  by (induction hs arbitrary: w) (simp_all add: ListenPendingTx_eq appends_def)

subsection \<open>The cases of the loop\<close>

lemma case_chBlocks_no_crash:
  "headerStream s \<noteq> None \<Longrightarrow> fst (case_chBlocks d ev s w) \<noteq> NilDereference"
  by (auto simp: case_chBlocks_def Let_def split: TMEventData.splits sum.splits)

lemma case_chLogs_no_crash:
  "logStream s \<noteq> None \<Longrightarrow> fst (case_chLogs d ev s w) \<noteq> NilDereference"
  by (auto simp: case_chLogs_def Let_def split: TMEventData.splits sum.splits option.splits)

lemma blocks_type_mismatch:
  "Data ev = TxData x \<or> Data ev = OtherData t \<Longrightarrow>
   skipped w (case_chBlocks d ev s w)
     [Logger_Error ''event data type mismatch'' ''type'' (type_name (Data ev))]"
  by (auto simp: skipped_def case_chBlocks_def logger_Error_def logged_def)

lemma blocks_resolver_failure:
  "Data ev = NewBlockData dat \<Longrightarrow>
   validatorAccount d (Height (Block_Header dat))
     (ConsAddress_String d (ProposerAddress (Block_Header dat))) = Inl err \<Longrightarrow>
   skipped w (case_chBlocks d ev s w)
     [Logger_Error ''failed to get validator account'' ''err'' err]"
  by (simp add: skipped_def case_chBlocks_def logger_Error_def logged_def Let_def)

lemma blocks_address_failure:
  "Data ev = NewBlockData dat \<Longrightarrow>
   validatorAccount d (Height (Block_Header dat))
     (ConsAddress_String d (ProposerAddress (Block_Header dat))) = Inr res \<Longrightarrow>
   AccAddressFromBech32 d res = Inl err \<Longrightarrow>
   skipped w (case_chBlocks d ev s w)
     [Logger_Error ''failed to convert validator account'' ''err'' err]"
  by (simp add: skipped_def case_chBlocks_def logger_Error_def logged_def Let_def)

lemma blocks_success:
  assumes "Data ev = NewBlockData dat"
    and "validatorAccount d (Height (Block_Header dat))
           (ConsAddress_String d (ProposerAddress (Block_Header dat))) = Inr res"
    and "AccAddressFromBech32 d res = Inr validator"
    and "headerStream s = Some h"
  shows "case_chBlocks d ev s w =
     (EndSelect,
      w\<lparr>trace := trace w @ [ValidatorAccount_call (Height (Block_Header dat))
                              (ConsAddress_String d (ProposerAddress (Block_Header dat)))],
        headers := (headers w)(h := Add
           [\<lparr>EthHeader = EthHeaderFromTendermint d (Block_Header dat) Bloom_zero
                           (BaseFeeFromEvents d (ResultFinalizeBlock_Events dat)) validator,
             Hash = BytesToHash d (Header_Hash d (Block_Header dat))\<rparr>]
           (headers w h))\<rparr>)"
  using assms by (simp add: case_chBlocks_def Let_def)

lemma logs_non_evm:
  "Events ev (evmTxHashKey d) = None \<Longrightarrow> case_chLogs d ev s w = (Continue, w)"
  by (simp add: case_chLogs_def)

lemma logs_type_mismatch:
  "Events ev (evmTxHashKey d) = Some v \<Longrightarrow>
   Data ev = NewBlockData x \<or> Data ev = OtherData t \<Longrightarrow>
   skipped w (case_chLogs d ev s w)
     [Logger_Error ''event data type mismatch'' ''type'' (type_name (Data ev))]"
  by (auto simp: skipped_def case_chLogs_def logger_Error_def logged_def)

lemma logs_height_failure:
  "Events ev (evmTxHashKey d) = Some v \<Longrightarrow> Data ev = TxData dataTx \<Longrightarrow>
   SafeUint64 d (TxResult_Height dataTx) = Inl err \<Longrightarrow>
   case_chLogs d ev s w = (Continue, w)"
  by (simp add: case_chLogs_def)

lemma logs_decode_failure:
  "Events ev (evmTxHashKey d) = Some v \<Longrightarrow> Data ev = TxData dataTx \<Longrightarrow>
   SafeUint64 d (TxResult_Height dataTx) = Inr height \<Longrightarrow>
   DecodeTxLogsFromEvents d (TxResult_Result_Data dataTx) (TxResult_Result_Events dataTx) height
     = Inl err \<Longrightarrow>
   skipped w (case_chLogs d ev s w)
     [Logger_Error ''fail to decode evm tx response'' ''error'' err]"
  by (simp add: skipped_def case_chLogs_def logger_Error_def logged_def Let_def)

lemma logs_success:
  assumes "Events ev (evmTxHashKey d) = Some v" "Data ev = TxData dataTx"
    and "SafeUint64 d (TxResult_Height dataTx) = Inr height"
    and "DecodeTxLogsFromEvents d (TxResult_Result_Data dataTx) (TxResult_Result_Events dataTx)
           height = Inr txLogs"
    and "logStream s = Some l"
  shows "case_chLogs d ev s w =
     (EndSelect,
      w\<lparr>trace := trace w @ [DecodeTxLogs_call (TxResult_Result_Data dataTx)
                              (TxResult_Result_Events dataTx) height],
        logs := (logs w)(l := Add txLogs (logs w l))\<rparr>)"
  using assms by (simp add: case_chLogs_def Let_def)

lemma case_chBlocks_keeps_logs:
  "logs (snd (case_chBlocks d ev s w)) = logs w"
  "filter is_decode (trace (snd (case_chBlocks d ev s w))) = filter is_decode (trace w)"
  by (auto simp: case_chBlocks_def Let_def logger_Error_def
      split: TMEventData.splits sum.splits option.splits)

lemma handler_ignores_wg:
  "case_chBlocks d ev (s\<lparr>wg := n\<rparr>) w = case_chBlocks d ev s w"
  "case_chLogs d ev (s\<lparr>wg := n\<rparr>) w = case_chLogs d ev s w"
  by (simp_all add: case_chBlocks_def case_chLogs_def Let_def
      split: TMEventData.splits sum.splits option.splits)

lemma handle_ignores_wg: "handle d (s\<lparr>wg := n\<rparr>) w x = handle d s w x"
  by (cases x) (simp_all add: handler_ignores_wg)

lemma foldl_handle_ignores_wg: "foldl (handle d (s\<lparr>wg := n\<rparr>)) w xs = foldl (handle d s) w xs"
  by (induction xs arbitrary: w) (simp_all add: handle_ignores_wg)

subsection \<open>The loop\<close>

lemma start_loop_blocks_event:
  "takes_blocks sched (Chan (ev # evs) c) chLogs \<Longrightarrow>
   start_loop d sched (Chan (ev # evs) c) chLogs s w =
     (if fst (case_chBlocks d ev s w) = NilDereference
      then (Crashed, snd (case_chBlocks d ev s w))
      else start_loop d (tl sched) (Chan evs c) chLogs s (snd (case_chBlocks d ev s w)))"
  by (subst start_loop.simps)
     (auto simp: takes_blocks_def both_nil_def split: prod.splits flow.splits)

lemma start_loop_blocks_closed:
  "takes_blocks sched (Chan [] c) chLogs \<Longrightarrow>
   start_loop d sched (Chan [] c) chLogs s w =
     (if chLogs = NilChan then (Exited, w) else start_loop d (tl sched) NilChan chLogs s w)"
  by (subst start_loop.simps) (auto simp: takes_blocks_def both_nil_def)

lemma start_loop_logs_event:
  "takes_logs sched chBlocks (Chan (ev # evs) c) \<Longrightarrow>
   start_loop d sched chBlocks (Chan (ev # evs) c) s w =
     (if fst (case_chLogs d ev s w) = NilDereference
      then (Crashed, snd (case_chLogs d ev s w))
      else start_loop d (tl sched) chBlocks (Chan evs c) s (snd (case_chLogs d ev s w)))"
  by (subst start_loop.simps)
     (auto simp: takes_logs_def takes_blocks_def both_nil_def split: prod.splits flow.splits)

lemma start_loop_logs_closed:
  "takes_logs sched chBlocks (Chan [] c) \<Longrightarrow>
   start_loop d sched chBlocks (Chan [] c) s w =
     (if chBlocks = NilChan then (Exited, w) else start_loop d (tl sched) chBlocks NilChan s w)"
  by (subst start_loop.simps) (auto simp: takes_logs_def takes_blocks_def both_nil_def)

lemma start_loop_blocked:
  "\<not> ready chBlocks \<Longrightarrow> \<not> ready chLogs \<Longrightarrow>
   start_loop d sched chBlocks chLogs s w = (Blocked, w)"
  by (subst start_loop.simps) simp

lemma recv_order_blocks_event:
  "takes_blocks sched (Chan (ev # evs) c) chLogs \<Longrightarrow>
   recv_order sched (Chan (ev # evs) c) chLogs = Inl ev # recv_order (tl sched) (Chan evs c) chLogs"
  by (subst recv_order.simps) (auto simp: takes_blocks_def)

lemma recv_order_blocks_closed:
  "takes_blocks sched (Chan [] c) chLogs \<Longrightarrow>
   recv_order sched (Chan [] c) chLogs =
     (if chLogs = NilChan then [] else recv_order (tl sched) NilChan chLogs)"
  by (subst recv_order.simps) (auto simp: takes_blocks_def both_nil_def)

lemma recv_order_logs_event:
  "takes_logs sched chBlocks (Chan (ev # evs) c) \<Longrightarrow>
   recv_order sched chBlocks (Chan (ev # evs) c) = Inr ev # recv_order (tl sched) chBlocks (Chan evs c)"
  by (subst recv_order.simps) (auto simp: takes_logs_def takes_blocks_def)

lemma recv_order_logs_closed:
  "takes_logs sched chBlocks (Chan [] c) \<Longrightarrow>
   recv_order sched chBlocks (Chan [] c) =
     (if chBlocks = NilChan then [] else recv_order (tl sched) chBlocks NilChan)"
  by (subst recv_order.simps) (auto simp: takes_logs_def takes_blocks_def both_nil_def)

lemma recv_order_blocked:
  "\<not> ready chBlocks \<Longrightarrow> \<not> ready chLogs \<Longrightarrow> recv_order sched chBlocks chLogs = []"
  by (subst recv_order.simps) simp

lemma select_cases:
  obtains (blocks_event) ev evs c where "chBlocks = Chan (ev # evs) c"
      "takes_blocks sched chBlocks chLogs"
  | (blocks_closed) "chBlocks = Chan [] True" "takes_blocks sched chBlocks chLogs"
  | (logs_event) ev evs c where "chLogs = Chan (ev # evs) c" "takes_logs sched chBlocks chLogs"
  | (logs_closed) "chLogs = Chan [] True" "takes_logs sched chBlocks chLogs"
  | (blocked) "\<not> ready chBlocks" "\<not> ready chLogs"
proof (cases "takes_blocks sched chBlocks chLogs")
  case True
  then have "ready chBlocks" by (simp add: takes_blocks_def)
  then have "(\<exists>ev evs c. chBlocks = Chan (ev # evs) c) \<or> chBlocks = Chan [] True"
    by (cases chBlocks rule: ready.cases) auto
  with True show ?thesis
    using blocks_event blocks_closed by blast
next
  case nb: False
  show ?thesis
  proof (cases "ready chLogs")
    case True
    with nb have tl: "takes_logs sched chBlocks chLogs" by (simp add: takes_logs_def)
    from True have "(\<exists>ev evs c. chLogs = Chan (ev # evs) c) \<or> chLogs = Chan [] True"
      by (cases chLogs rule: ready.cases) auto
    with tl show ?thesis
      using logs_event logs_closed by blast
  next
    case False
    with nb have "\<not> ready chBlocks" by (simp add: takes_blocks_def)
    with False show ?thesis by (rule blocked[rotated])
  qed
qed

lemma recv_order_blocks: "[x. Inl x \<leftarrow> recv_order sched chBlocks chLogs] = queued chBlocks"
proof (induction sched chBlocks chLogs rule: recv_order.induct)
  case (1 sched chBlocks chLogs)
  show ?case
    apply (subst recv_order.simps)
    using 1
    apply (cases chBlocks; cases chLogs)
    apply (auto split: list.splits simp: both_nil_def)
    done
qed

lemma recv_order_logs: "[x. Inr x \<leftarrow> recv_order sched chBlocks chLogs] = queued chLogs"
proof (induction "chan_size chBlocks + chan_size chLogs" arbitrary: sched chBlocks chLogs
    rule: less_induct)
  case less
  show ?case
  proof (cases sched chBlocks chLogs rule: select_cases)
    case (blocks_event ev evs c)
    have "[x. Inr x \<leftarrow> recv_order (tl sched) (Chan evs c) chLogs] = queued chLogs"
      by (rule less) (simp add: blocks_event)
    with blocks_event show ?thesis by (simp add: recv_order_blocks_event)
  next
    case blocks_closed
    have "[x. Inr x \<leftarrow> recv_order (tl sched) NilChan chLogs] = queued chLogs"
      by (rule less) (simp add: blocks_closed)
    with blocks_closed show ?thesis by (auto simp add: recv_order_blocks_closed)
  next
    case (logs_event ev evs c)
    have "[x. Inr x \<leftarrow> recv_order (tl sched) chBlocks (Chan evs c)] = queued (Chan evs c)"
      by (rule less) (simp add: logs_event)
    with logs_event show ?thesis by (simp add: recv_order_logs_event)
  next
    case logs_closed
    have "[x. Inr x \<leftarrow> recv_order (tl sched) chBlocks NilChan] = queued NilChan"
      by (rule less) (simp add: logs_closed)
    with logs_closed show ?thesis by (auto simp add: recv_order_logs_closed)
  next
    case blocked
    then show ?thesis
      by (cases chLogs rule: ready.cases) (simp_all add: recv_order_blocked)
  qed
qed

lemma expected_end_Chan:
  "expected_end (Chan bs cb) (Chan ls cl) = (if cb \<and> cl then Exited else Blocked)"
  by (simp add: expected_end_def both_nil_def)

lemma start_loop_fold:
  assumes "headerStream s \<noteq> None" "logStream s \<noteq> None"
  shows "start_loop d sched chBlocks chLogs s w =
     (expected_end chBlocks chLogs, foldl (handle d s) w (recv_order sched chBlocks chLogs))"
proof (induction "chan_size chBlocks + chan_size chLogs" arbitrary: sched chBlocks chLogs w
    rule: less_induct)
  case less
  note nb = case_chBlocks_no_crash[OF assms(1)]
  note nl = case_chLogs_no_crash[OF assms(2)]
  show ?case
  proof (cases sched chBlocks chLogs rule: select_cases)
    case (blocks_event ev evs c)
    have "start_loop d (tl sched) (Chan evs c) chLogs s (snd (case_chBlocks d ev s w)) =
        (expected_end (Chan evs c) chLogs,
         foldl (handle d s) (snd (case_chBlocks d ev s w)) (recv_order (tl sched) (Chan evs c) chLogs))"
      by (rule less) (simp add: blocks_event)
    moreover have "expected_end (Chan evs c) chLogs = expected_end chBlocks chLogs"
      by (simp add: blocks_event expected_end_def both_nil_def)
    ultimately show ?thesis
      using blocks_event nb[of d ev w]
      by (simp add: start_loop_blocks_event recv_order_blocks_event)
  next
    case blocks_closed
    show ?thesis
    proof (cases "chLogs = NilChan")
      case True
      with blocks_closed show ?thesis
        by (simp add: start_loop_blocks_closed recv_order_blocks_closed expected_end_def both_nil_def)
    next
      case False
      have "start_loop d (tl sched) NilChan chLogs s w =
          (expected_end NilChan chLogs, foldl (handle d s) w (recv_order (tl sched) NilChan chLogs))"
        by (rule less) (simp add: blocks_closed)
      moreover from False have "expected_end NilChan chLogs = expected_end chBlocks chLogs"
        by (simp add: blocks_closed expected_end_def both_nil_def)
      ultimately show ?thesis
        using blocks_closed False
        by (simp add: start_loop_blocks_closed recv_order_blocks_closed)
    qed
  next
    case (logs_event ev evs c)
    have "start_loop d (tl sched) chBlocks (Chan evs c) s (snd (case_chLogs d ev s w)) =
        (expected_end chBlocks (Chan evs c),
         foldl (handle d s) (snd (case_chLogs d ev s w)) (recv_order (tl sched) chBlocks (Chan evs c)))"
      by (rule less) (simp add: logs_event)
    moreover have "expected_end chBlocks (Chan evs c) = expected_end chBlocks chLogs"
      by (simp add: logs_event expected_end_def both_nil_def)
    ultimately show ?thesis
      using logs_event nl[of d ev w]
      by (simp add: start_loop_logs_event recv_order_logs_event)
  next
    case logs_closed
    show ?thesis
    proof (cases "chBlocks = NilChan")
      case True
      with logs_closed show ?thesis
        by (simp add: start_loop_logs_closed recv_order_logs_closed expected_end_def both_nil_def)
    next
      case False
      have "start_loop d (tl sched) chBlocks NilChan s w =
          (expected_end chBlocks NilChan, foldl (handle d s) w (recv_order (tl sched) chBlocks NilChan))"
        by (rule less) (simp add: logs_closed)
      moreover from False have "expected_end chBlocks NilChan = expected_end chBlocks chLogs"
        by (simp add: logs_closed expected_end_def both_nil_def)
      ultimately show ?thesis
        using logs_closed False
        by (simp add: start_loop_logs_closed recv_order_logs_closed)
    qed
  next
    case blocked
    then have "expected_end chBlocks chLogs = Blocked"
      by (cases chBlocks rule: ready.cases; cases chLogs rule: ready.cases)
         (simp_all add: expected_end_def both_nil_def)
    with blocked show ?thesis
      by (simp add: start_loop_blocked recv_order_blocked)
  qed
qed

lemma non_evm_queue_keeps_logs:
  assumes "\<forall>ev \<in> set (queued chLogs). Events ev (evmTxHashKey d) = None"
  shows "logs (snd (start_loop d sched chBlocks chLogs s w)) = logs w
     \<and> filter is_decode (trace (snd (start_loop d sched chBlocks chLogs s w)))
         = filter is_decode (trace w)"
  using assms
proof (induction "chan_size chBlocks + chan_size chLogs" arbitrary: sched chBlocks chLogs w
    rule: less_induct)
  case less
  show ?case
  proof (cases sched chBlocks chLogs rule: select_cases)
    case (blocks_event ev evs c)
    have "logs (snd (start_loop d (tl sched) (Chan evs c) chLogs s (snd (case_chBlocks d ev s w))))
          = logs (snd (case_chBlocks d ev s w))
       \<and> filter is_decode (trace (snd (start_loop d (tl sched) (Chan evs c) chLogs s
           (snd (case_chBlocks d ev s w)))))
          = filter is_decode (trace (snd (case_chBlocks d ev s w)))"
      using less.prems by (intro less.hyps) (simp_all add: blocks_event)
    with blocks_event show ?thesis
      by (simp add: start_loop_blocks_event case_chBlocks_keeps_logs)
  next
    case blocks_closed
    have "logs (snd (start_loop d (tl sched) NilChan chLogs s w)) = logs w
       \<and> filter is_decode (trace (snd (start_loop d (tl sched) NilChan chLogs s w)))
          = filter is_decode (trace w)"
      using less.prems by (intro less.hyps) (simp_all add: blocks_closed)
    with blocks_closed show ?thesis
      by (simp add: start_loop_blocks_closed)
  next
    case (logs_event ev evs c)
    with less.prems have skip: "case_chLogs d ev s w = (Continue, w)"
      by (simp add: logs_non_evm)
    have "logs (snd (start_loop d (tl sched) chBlocks (Chan evs c) s w)) = logs w
       \<and> filter is_decode (trace (snd (start_loop d (tl sched) chBlocks (Chan evs c) s w)))
          = filter is_decode (trace w)"
      using less.prems by (intro less.hyps) (simp_all add: logs_event)
    with logs_event skip show ?thesis
      by (simp add: start_loop_logs_event)
  next
    case logs_closed
    have "logs (snd (start_loop d (tl sched) chBlocks NilChan s w)) = logs w
       \<and> filter is_decode (trace (snd (start_loop d (tl sched) chBlocks NilChan s w)))
          = filter is_decode (trace w)"
      by (intro less.hyps) (simp_all add: logs_closed)
    with logs_closed show ?thesis
      by (simp add: start_loop_logs_closed)
  next
    case blocked
    then show ?thesis by (simp add: start_loop_blocked)
  qed
qed

lemma start_wg:
  "wg (fst (snd (start d sched chBlocks chLogs s w))) =
     (if fst (start d sched chBlocks chLogs s w) = Blocked then wg s + 1 else wg s)"
  by (auto simp: start_def split: prod.splits loop_end.splits option.splits)

lemma Close_manager: "fst (snd (Close d s w)) = s"
  by (simp add: Close_def UnsubscribeAll_def split: option.splits)

lemma start_manager:
  "headerStream (fst (snd (start d sched chBlocks chLogs s w))) = headerStream s"
  "logStream (fst (snd (start d sched chBlocks chLogs s w))) = logStream s"
  "pendingTxStream (fst (snd (start d sched chBlocks chLogs s w))) = pendingTxStream s"
  by (auto simp: start_def split: prod.splits loop_end.splits option.splits)

subsection \<open>The samples\<close>

lemma sample_deps_simps:
  "client_answer (sample_deps a) = a"
  "blockEvents (sample_deps a) = ''tm.event=NewBlock''"
  "evmEvents (sample_deps a) = ''tm.event=Tx AND message.module=evm''"
  "evmTxHashKey (sample_deps a) = ''ethereum_tx.ethereumTxHash''"
  by (simp_all add: sample_deps_def)

lemma fresh_simps:
  "fst (NewRPCStreams sample_world)
     = \<lparr>headerStream = None, logStream = None, pendingTxStream = 0, wg = 0\<rparr>"
  "trace (snd (NewRPCStreams sample_world)) = []"
  "active (snd (NewRPCStreams sample_world)) = []"
  "goroutines (snd (NewRPCStreams sample_world)) = []"
  "next_ref (snd (NewRPCStreams sample_world)) = 1"
  by (simp_all add: NewRPCStreams_def sample_world_def)

lemma sample_calls:
  "sub_blocks (sample_deps a) = Subscribe_call ''ethermint-json-rpc'' ''tm.event=NewBlock'' 1024"
  "sub_evm (sample_deps a)
     = Subscribe_call ''ethermint-json-rpc'' ''tm.event=Tx AND message.module=evm'' 1024"
  "unsub_all = UnsubscribeAll_call ''ethermint-json-rpc''"
  by (simp_all add: sub_blocks_def sub_evm_def unsub_all_def sample_deps_simps
      streamSubscriberName_def subscribBufferSize_def)

lemma subscribed_state_simps:
  "fst (subscribed_state (sample_deps all_ok))
     = \<lparr>headerStream = Some 1, logStream = Some 2, pendingTxStream = 0, wg = 0\<rparr>"
  "headers (snd (subscribed_state (sample_deps all_ok))) 1 = NewStream 128 4096"
  "headers (snd (subscribed_state (sample_deps all_ok))) (Suc 0) = NewStream 128 4096"
  "logs (snd (subscribed_state (sample_deps all_ok))) 2 = NewStream 2048 65536"
  "hashes (snd (subscribed_state (sample_deps all_ok))) 0 = NewStream 1024 32768"
  "trace (snd (subscribed_state (sample_deps all_ok)))
     = [Subscribe_call ''ethermint-json-rpc'' ''tm.event=NewBlock'' 1024,
        Subscribe_call ''ethermint-json-rpc'' ''tm.event=Tx AND message.module=evm'' 1024]"
  by (simp_all add: subscribed_state_def NewRPCStreams_def sample_world_def HeaderStream_def
      initSubscriptions_def Subscribe_def Let_def all_ok_def sample_deps_simps
      streamSubscriberName_def subscribBufferSize_def headerStreamSegmentSize_def
      headerStreamCapacity_def logStreamSegmentSize_def logStreamCapacity_def
      txStreamSegmentSize_def txStreamCapacity_def)

lemma running_state_eq:
  "client_answer d = all_ok \<or> client_answer d = unsubscribe_fails \<Longrightarrow>
   running_state d =
     (\<lparr>headerStream = Some 1, logStream = Some 2, pendingTxStream = 0, wg = 1\<rparr>,
      subscribed_world d (snd (NewRPCStreams sample_world)))"
  by (auto simp add: running_state_def NewRPCStreams_def sample_world_def HeaderStream_def
      initSubscriptions_def Subscribe_def Let_def all_ok_def unsubscribe_fails_def
      subscribed_world_def init_world_def sub_blocks_def sub_evm_def
      start_def start_loop_blocked)

lemma sample_tx_simps:
  "Events (tx_event attrs height dat) = attrs"
  "Data (tx_event attrs height dat)
     = TxData \<lparr>TxResult_Height = height, TxResult_Result_Data = dat,
               TxResult_Result_Events = []\<rparr>"
  "evm_attrs ''ethereum_tx.ethereumTxHash'' = Some [''0xabc'']"
  by (simp_all add: tx_event_def evm_attrs_def)

lemma sample_block_simps:
  "Data (block_event height proposer)
     = NewBlockData
        \<lparr>Block_Header = \<lparr>Height = height, ProposerAddress = proposer, AppHash = [7]\<rparr>,
         ResultFinalizeBlock_Events = []\<rparr>"
  by (simp add: block_event_def)

lemma sample_collaborators:
  "SafeUint64 (sample_deps a) 5 = Inr 5"
  "SafeUint64 (sample_deps a) (- 1) = Inl ''negative value''"
  "DecodeTxLogsFromEvents (sample_deps a) [1, 2] [] 5 = Inr [Log [1] [] [], Log [2] [] []]"
  "DecodeTxLogsFromEvents (sample_deps a) [] [] 5 = Inl ''empty tx response''"
  by (simp_all add: sample_deps_def)

lemma sample_collaborators2:
  "ConsAddress_String (sample_deps a) [] = []"
  "ConsAddress_String (sample_deps a) [9] = ''ethvalcons1proposer''"
  "validatorAccount (sample_deps a) 5 [] = Inl ''validator not found''"
  "validatorAccount (sample_deps a) 0 ''ethvalcons1proposer'' = Inr ''?''"
  "AccAddressFromBech32 (sample_deps a) ''?'' = Inl ''decoding bech32 failed''"
  by (simp_all add: sample_deps_def)

lemma sample_block_handled:
  "headerStream s = Some h \<Longrightarrow>
   snd (case_chBlocks (sample_deps a) (block_event 5 [9]) s w)
     = w\<lparr>trace := trace w @ [ValidatorAccount_call 5 ''ethvalcons1proposer''],
         headers := (headers w)(h := Add
           [\<lparr>EthHeader = \<lparr>Number = 5, Coinbase = [1, 2, 3], Bloom = Bloom_zero, BaseFee = None,
                           Root = [7]\<rparr>, Hash = [7]\<rparr>] (headers w h))\<rparr>"
  by (simp add: case_chBlocks_def sample_block_simps sample_deps_def Let_def)

lemma sample_tx_handled:
  "logStream s = Some l \<Longrightarrow>
   snd (case_chLogs (sample_deps a) (tx_event evm_attrs 5 [1, 2]) s w)
     = w\<lparr>trace := trace w @ [DecodeTxLogs_call [1, 2] [] 5],
         logs := (logs w)(l := Add [Log [1] [] [], Log [2] [] []] (logs w l))\<rparr>"
  by (simp add: case_chLogs_def sample_tx_simps sample_deps_def Let_def)

lemma sample_order:
  "recv_order [] (Chan [b] True) (Chan [t] cl) = [Inl b, Inr t]"
  by (simp add: recv_order.simps both_nil_def)

section \<open>Claims\<close>

subsection \<open>Shutdown\<close>

text \<open>
  C1 (as amended). \<^verbatim>\<open>Close()\<close> on a manager whose header and log streams were never
  accessed returns no error and changes nothing: no unsubscription request is made.
  Otherwise it makes exactly one request to the event feed, \<^verbatim>\<open>UnsubscribeAll\<close> for the
  manager's subscriber, and leaves the manager as it was. If that request fails,
  \<^verbatim>\<open>Close()\<close> returns its error to the caller at once, whether or not the demultiplexing
  task has ended. If the request succeeds, \<^verbatim>\<open>Close()\<close> reports no error.
\<close>

theorem Close_unsubscribes_and_surfaces_error:
  "(headerStream s = None \<longrightarrow> Close d s w = (Returned None, s, w))
   \<and> (headerStream s \<noteq> None \<longrightarrow>
        fst (snd (Close d s w)) = s
        \<and> trace (snd (snd (Close d s w)))
            = trace w @ [UnsubscribeAll_call streamSubscriberName])
   \<and> (headerStream s \<noteq> None \<and> client_answer d (trace w) unsub_all = Some err \<longrightarrow>
        Close d s w =
          (Returned (Some err), s,
           w\<lparr>trace := trace w @ [UnsubscribeAll_call streamSubscriberName]\<rparr>))
   \<and> (headerStream s \<noteq> None \<and> client_answer d (trace w) unsub_all = None \<longrightarrow>
        fst (Close d s w) \<noteq> Returned (Some e))"
  by (simp add: Close_def UnsubscribeAll_def unsub_all_def split: option.splits)

text \<open>
  The amended C1 on three managers: a fresh one; an initialised one whose event feed
  unsubscribes; an initialised one whose event feed refuses to unsubscribe.
\<close>

theorem Close_unsubscribes_and_surfaces_error_witness:
  "Close (sample_deps all_ok) (fst (NewRPCStreams sample_world)) (snd (NewRPCStreams sample_world))
     = (Returned None, fst (NewRPCStreams sample_world), snd (NewRPCStreams sample_world))
   \<and> trace (snd (snd (Close (sample_deps all_ok) (fst (running_state (sample_deps all_ok)))
        (snd (running_state (sample_deps all_ok))))))
       = [Subscribe_call ''ethermint-json-rpc'' ''tm.event=NewBlock'' 1024,
          Subscribe_call ''ethermint-json-rpc'' ''tm.event=Tx AND message.module=evm'' 1024,
          UnsubscribeAll_call ''ethermint-json-rpc'']
   \<and> fst (Close (sample_deps all_ok) (fst (running_state (sample_deps all_ok)))
        (snd (running_state (sample_deps all_ok))))
       \<noteq> Returned (Some ''event feed unreachable'')
   \<and> fst (Close (sample_deps unsubscribe_fails)
        (fst (running_state (sample_deps unsubscribe_fails)))
        (snd (running_state (sample_deps unsubscribe_fails))))
       = Returned (Some ''event feed unreachable'')"
proof -
  let ?ok = "sample_deps all_ok"
  let ?ko = "sample_deps unsubscribe_fails"
  have fresh: "headerStream (fst (NewRPCStreams sample_world)) = None"
    by (simp add: fresh_simps)
  have run_ok: "headerStream (fst (running_state ?ok)) \<noteq> None
      \<and> client_answer ?ok (trace (snd (running_state ?ok))) unsub_all = None"
    by (simp add: running_state_eq sample_deps_simps all_ok_def)
  have tr_ok: "trace (snd (running_state ?ok))
      = [Subscribe_call ''ethermint-json-rpc'' ''tm.event=NewBlock'' 1024,
         Subscribe_call ''ethermint-json-rpc'' ''tm.event=Tx AND message.module=evm'' 1024]"
    by (simp add: running_state_eq sample_deps_simps subscribed_world_def fresh_simps
        sample_calls)
  have run_ko: "headerStream (fst (running_state ?ko)) \<noteq> None
      \<and> client_answer ?ko (trace (snd (running_state ?ko))) unsub_all
          = Some ''event feed unreachable''"
    by (simp add: running_state_eq sample_deps_simps unsubscribe_fails_def sample_calls)
  from Close_unsubscribes_and_surfaces_error[of "fst (NewRPCStreams sample_world)" ?ok
      "snd (NewRPCStreams sample_world)"] fresh
  have a: "Close ?ok (fst (NewRPCStreams sample_world)) (snd (NewRPCStreams sample_world))
     = (Returned None, fst (NewRPCStreams sample_world), snd (NewRPCStreams sample_world))"
    by blast
  from Close_unsubscribes_and_surfaces_error[of "fst (running_state ?ok)" ?ok
      "snd (running_state ?ok)" _ "''event feed unreachable''"] run_ok tr_ok
  have b: "trace (snd (snd (Close ?ok (fst (running_state ?ok)) (snd (running_state ?ok)))))
       = [Subscribe_call ''ethermint-json-rpc'' ''tm.event=NewBlock'' 1024,
          Subscribe_call ''ethermint-json-rpc'' ''tm.event=Tx AND message.module=evm'' 1024,
          UnsubscribeAll_call ''ethermint-json-rpc'']"
    and b': "fst (Close ?ok (fst (running_state ?ok)) (snd (running_state ?ok)))
       \<noteq> Returned (Some ''event feed unreachable'')"
    by (simp_all add: streamSubscriberName_def)
  from Close_unsubscribes_and_surfaces_error[of "fst (running_state ?ko)" ?ko
      "snd (running_state ?ko)" "''event feed unreachable''"] run_ko
  have c: "fst (Close ?ko (fst (running_state ?ko)) (snd (running_state ?ko)))
      = Returned (Some ''event feed unreachable'')"
    by simp
  from a b b' c show ?thesis by simp
qed

text \<open>
  C1 as stated fails: on an initialised manager whose demultiplexing task is still in its
  loop (the counter of the wait group is 1), a failing unsubscription makes \<^verbatim>\<open>Close()\<close>
  return the error without waiting for that task.
\<close>

theorem Close_returns_without_waiting_counterexample:
  "headerStream (fst (running_state (sample_deps unsubscribe_fails))) \<noteq> None
   \<and> wg (fst (running_state (sample_deps unsubscribe_fails))) = 1
   \<and> fst (Close (sample_deps unsubscribe_fails)
        (fst (running_state (sample_deps unsubscribe_fails)))
        (snd (running_state (sample_deps unsubscribe_fails))))
       = Returned (Some ''event feed unreachable'')"
  by (simp add: running_state_eq sample_deps_simps Close_def UnsubscribeAll_def
      unsubscribe_fails_def)

subsection \<open>Errors of single events\<close>

text \<open>
  What the loop does on a transient error of one event. The case ends with \<^verbatim>\<open>continue\<close>
  and nothing is appended to any stream: for a payload of the wrong type on the new-block
  queue, or on the transaction queue in an event that carries the EVM transaction-hash
  attribute; for a failure of the validator-account resolver; for a failure to convert
  the validator address; for a failure to convert the block height; and for a failure to
  decode the logs. After a skipped event the loop goes on with the rest of the queues;
  and whatever the events are, a loop over initialised streams handles every received
  event in turn and ends only as the closing of the queues decides. The lines written to
  the logger are listed with each case.
\<close>

lemma transient_event_errors_are_skipped:
  "(Data ev = TxData x \<or> Data ev = OtherData t \<longrightarrow>
      skipped w (case_chBlocks d ev s w)
        [Logger_Error ''event data type mismatch'' ''type'' (type_name (Data ev))])
   \<and> (Data ev = NewBlockData dat
      \<and> validatorAccount d (Height (Block_Header dat))
          (ConsAddress_String d (ProposerAddress (Block_Header dat))) = Inl err \<longrightarrow>
      skipped w (case_chBlocks d ev s w)
        [Logger_Error ''failed to get validator account'' ''err'' err])
   \<and> (Data ev = NewBlockData dat
      \<and> validatorAccount d (Height (Block_Header dat))
          (ConsAddress_String d (ProposerAddress (Block_Header dat))) = Inr res
      \<and> AccAddressFromBech32 d res = Inl err \<longrightarrow>
      skipped w (case_chBlocks d ev s w)
        [Logger_Error ''failed to convert validator account'' ''err'' err])
   \<and> (Events ev (evmTxHashKey d) = Some v
      \<and> (Data ev = NewBlockData y \<or> Data ev = OtherData t) \<longrightarrow>
      skipped w (case_chLogs d ev s w)
        [Logger_Error ''event data type mismatch'' ''type'' (type_name (Data ev))])
   \<and> (Events ev (evmTxHashKey d) = Some v \<and> Data ev = TxData dataTx
      \<and> SafeUint64 d (TxResult_Height dataTx) = Inl err \<longrightarrow>
      skipped w (case_chLogs d ev s w) [])
   \<and> (Events ev (evmTxHashKey d) = Some v \<and> Data ev = TxData dataTx
      \<and> SafeUint64 d (TxResult_Height dataTx) = Inr height
      \<and> DecodeTxLogsFromEvents d (TxResult_Result_Data dataTx)
          (TxResult_Result_Events dataTx) height = Inl err \<longrightarrow>
      skipped w (case_chLogs d ev s w)
        [Logger_Error ''fail to decode evm tx response'' ''error'' err])
   \<and> (skipped w (case_chBlocks d ev s w) entries
      \<and> takes_blocks sched (Chan (ev # evs) c) chLogs \<longrightarrow>
      start_loop d sched (Chan (ev # evs) c) chLogs s w
        = start_loop d (tl sched) (Chan evs c) chLogs s (snd (case_chBlocks d ev s w)))
   \<and> (skipped w (case_chLogs d ev s w) entries
      \<and> takes_logs sched chBlocks (Chan (ev # evs) c) \<longrightarrow>
      start_loop d sched chBlocks (Chan (ev # evs) c) s w
        = start_loop d (tl sched) chBlocks (Chan evs c) s (snd (case_chLogs d ev s w)))
   \<and> (headerStream s \<noteq> None \<and> logStream s \<noteq> None \<longrightarrow>
      start_loop d sched chBlocks chLogs s w
        = (expected_end chBlocks chLogs,
           foldl (handle d s) w (recv_order sched chBlocks chLogs)))"
proof (intro conjI impI, goal_cases)
  case 1
  then show ?case by (rule blocks_type_mismatch)
next
  case 2
  then show ?case by (auto intro: blocks_resolver_failure)
next
  case 3
  then show ?case by (auto intro: blocks_address_failure)
next
  case 4
  then show ?case by (auto intro: logs_type_mismatch)
next
  case 5
  then have "case_chLogs d ev s w = (Continue, w)"
    by (auto intro: logs_height_failure)
  then show ?case by (simp add: skipped_def)
next
  case 6
  then show ?case by (auto intro: logs_decode_failure)
next
  case 7
  then show ?case by (simp add: start_loop_blocks_event skipped_def)
next
  case 8
  then show ?case by (simp add: start_loop_logs_event skipped_def)
next
  case 9
  then show ?case by (simp add: start_loop_fold)
qed

text \<open>
  One event of each kind, and a queue holding a transaction whose logs do not decode
  followed by one with two logs: the loop leaves after both, and the log stream holds the
  two logs of the second.
\<close>

lemma transient_event_errors_example:
  "skipped (snd (subscribed_state (sample_deps all_ok)))
     (case_chBlocks (sample_deps all_ok) (tx_event evm_attrs 5 [1, 2])
        (fst (subscribed_state (sample_deps all_ok))) (snd (subscribed_state (sample_deps all_ok))))
     [Logger_Error ''event data type mismatch'' ''type'' ''types.EventDataTx'']
   \<and> skipped (snd (subscribed_state (sample_deps all_ok)))
     (case_chBlocks (sample_deps all_ok) (block_event 5 [])
        (fst (subscribed_state (sample_deps all_ok))) (snd (subscribed_state (sample_deps all_ok))))
     [Logger_Error ''failed to get validator account'' ''err'' ''validator not found'']
   \<and> skipped (snd (subscribed_state (sample_deps all_ok)))
     (case_chBlocks (sample_deps all_ok) (block_event 0 [9])
        (fst (subscribed_state (sample_deps all_ok))) (snd (subscribed_state (sample_deps all_ok))))
     [Logger_Error ''failed to convert validator account'' ''err'' ''decoding bech32 failed'']
   \<and> skipped (snd (subscribed_state (sample_deps all_ok)))
     (case_chLogs (sample_deps all_ok) mistyped_tx_event
        (fst (subscribed_state (sample_deps all_ok))) (snd (subscribed_state (sample_deps all_ok))))
     [Logger_Error ''event data type mismatch'' ''type'' ''types.EventDataNewBlock'']
   \<and> skipped (snd (subscribed_state (sample_deps all_ok)))
     (case_chLogs (sample_deps all_ok) (tx_event evm_attrs (- 1) [1, 2])
        (fst (subscribed_state (sample_deps all_ok))) (snd (subscribed_state (sample_deps all_ok))))
     []
   \<and> skipped (snd (subscribed_state (sample_deps all_ok)))
     (case_chLogs (sample_deps all_ok) (tx_event evm_attrs 5 [])
        (fst (subscribed_state (sample_deps all_ok))) (snd (subscribed_state (sample_deps all_ok))))
     [Logger_Error ''fail to decode evm tx response'' ''error'' ''empty tx response'']
   \<and> fst (start_loop (sample_deps all_ok) [] NilChan
         (Chan [tx_event evm_attrs 5 [], tx_event evm_attrs 5 [1, 2]] True)
         (fst (subscribed_state (sample_deps all_ok)))
         (snd (subscribed_state (sample_deps all_ok)))) = Exited
   \<and> items (logs (snd (start_loop (sample_deps all_ok) [] NilChan
         (Chan [tx_event evm_attrs 5 [], tx_event evm_attrs 5 [1, 2]] True)
         (fst (subscribed_state (sample_deps all_ok)))
         (snd (subscribed_state (sample_deps all_ok))))) 2)
       = [Log [1] [] [], Log [2] [] []]"
proof -
  let ?d = "sample_deps all_ok"
  let ?s = "fst (subscribed_state ?d)"
  let ?w = "snd (subscribed_state ?d)"
  let ?tx = "\<lambda>h dat. \<lparr>TxResult_Height = h, TxResult_Result_Data = dat,
                       TxResult_Result_Events = []\<rparr>"
  let ?blk = "\<lambda>h p. \<lparr>Block_Header = \<lparr>Height = h, ProposerAddress = p, AppHash = [7]\<rparr>,
                      ResultFinalizeBlock_Events = []\<rparr>"
  have attr: "Events (tx_event evm_attrs h dat) (evmTxHashKey ?d) = Some [''0xabc'']" for h dat
    by (simp add: sample_tx_simps sample_deps_simps)
  have c1: "skipped ?w (case_chBlocks ?d (tx_event evm_attrs 5 [1, 2]) ?s ?w)
      [Logger_Error ''event data type mismatch'' ''type'' ''types.EventDataTx'']"
    using transient_event_errors_are_skipped[of "tx_event evm_attrs 5 [1, 2]" "?tx 5 [1, 2]"
        _ ?w ?d ?s]
    by (simp add: sample_tx_simps)
  have c2: "skipped ?w (case_chBlocks ?d (block_event 5 []) ?s ?w)
      [Logger_Error ''failed to get validator account'' ''err'' ''validator not found'']"
    using transient_event_errors_are_skipped[of "block_event 5 []" _ _ ?w ?d ?s "?blk 5 []"
        "''validator not found''"]
    by (simp add: sample_block_simps sample_collaborators2)
  have c3: "skipped ?w (case_chBlocks ?d (block_event 0 [9]) ?s ?w)
      [Logger_Error ''failed to convert validator account'' ''err'' ''decoding bech32 failed'']"
    using transient_event_errors_are_skipped[of "block_event 0 [9]" _ _ ?w ?d ?s "?blk 0 [9]"
        "''decoding bech32 failed''" "''?''"]
    by (simp add: sample_block_simps sample_collaborators2)
  have c4: "skipped ?w (case_chLogs ?d mistyped_tx_event ?s ?w)
      [Logger_Error ''event data type mismatch'' ''type'' ''types.EventDataNewBlock'']"
    using transient_event_errors_are_skipped[of mistyped_tx_event _ _ ?w ?d ?s _ _ _
        "[''0xabc'']" "?blk 5 [9]"]
    by (simp add: mistyped_tx_event_def sample_block_simps block_event_def evm_attrs_def
        sample_deps_simps)
  have c5: "skipped ?w (case_chLogs ?d (tx_event evm_attrs (- 1) [1, 2]) ?s ?w) []"
    using transient_event_errors_are_skipped[of "tx_event evm_attrs (- 1) [1, 2]" _ _ ?w ?d ?s
        _ "''negative value''" _ "[''0xabc'']" _ "?tx (- 1) [1, 2]"] attr
    by (simp add: sample_tx_simps sample_collaborators)
  have c6: "skipped ?w (case_chLogs ?d (tx_event evm_attrs 5 []) ?s ?w)
      [Logger_Error ''fail to decode evm tx response'' ''error'' ''empty tx response'']"
    using transient_event_errors_are_skipped[of "tx_event evm_attrs 5 []" _ _ ?w ?d ?s
        _ "''empty tx response''" _ "[''0xabc'']" _ "?tx 5 []" 5] attr
    by (simp add: sample_tx_simps sample_collaborators)
  have order: "recv_order [] NilChan
      (Chan [tx_event evm_attrs 5 [], tx_event evm_attrs 5 [1, 2]] True)
      = [Inr (tx_event evm_attrs 5 []), Inr (tx_event evm_attrs 5 [1, 2])]"
    by (simp add: recv_order.simps both_nil_def)
  have loop: "start_loop ?d [] NilChan
      (Chan [tx_event evm_attrs 5 [], tx_event evm_attrs 5 [1, 2]] True) ?s ?w
      = (Exited, snd (case_chLogs ?d (tx_event evm_attrs 5 [1, 2]) ?s
                   (snd (case_chLogs ?d (tx_event evm_attrs 5 []) ?s ?w))))"
    using transient_event_errors_are_skipped[where d = ?d and s = ?s and w = ?w
        and sched = "[]" and chBlocks = NilChan
        and chLogs = "Chan [tx_event evm_attrs 5 [], tx_event evm_attrs 5 [1, 2]] True"
        and ev = "tx_event evm_attrs 5 []" and x = "?tx 5 []" and t = "[]"
        and dat = "?blk 5 []" and err = "[]" and res = "[]" and v = "[]" and y = "?blk 5 []"
        and dataTx = "?tx 5 []" and height = 5 and entries = "[]" and evs = "[]" and c = True]
    by (simp add: subscribed_state_simps order expected_end_def both_nil_def)
  from c6 have keep: "logs (snd (case_chLogs ?d (tx_event evm_attrs 5 []) ?s ?w)) = logs ?w"
    by (simp add: skipped_def)
  have l: "logStream ?s = Some 2"
    by (simp add: subscribed_state_simps)
  have e1: "fst (start_loop ?d [] NilChan
      (Chan [tx_event evm_attrs 5 [], tx_event evm_attrs 5 [1, 2]] True) ?s ?w) = Exited"
    unfolding loop by simp
  have e2: "items (logs (snd (start_loop ?d [] NilChan
      (Chan [tx_event evm_attrs 5 [], tx_event evm_attrs 5 [1, 2]] True) ?s ?w)) 2)
      = [Log [1] [] [], Log [2] [] []]"
  proof -
    have "logs (snd (case_chLogs ?d (tx_event evm_attrs 5 [1, 2]) ?s W)) 2
        = Add [Log [1] [] [], Log [2] [] []] (logs W 2)" for W
      by (simp add: sample_tx_handled[OF l])
    with keep have "logs (snd (case_chLogs ?d (tx_event evm_attrs 5 [1, 2]) ?s
          (snd (case_chLogs ?d (tx_event evm_attrs 5 []) ?s ?w)))) 2
        = Add [Log [1] [] [], Log [2] [] []] (logs ?w 2)"
      by simp
    then show ?thesis
      unfolding loop by (simp add: subscribed_state_simps(4) Add_def evict_def NewStream_def items_def)
  qed
  from c1 c2 c3 c4 c5 c6 e1 e2 show ?thesis
    by (intro conjI)
qed

text \<open>
  C2, at an input where the code departs from it. The claim: every transient error of
  one event is logged, the event is skipped, and the loop goes on. For an EVM transaction
  event with height -1 the height conversion fails; the event is skipped and the loop
  goes on (here it leaves, the queue being closed after the event), but no line is
  written to the logger: the world is left as it was. The neighbouring failure, logs that
  do not decode, writes its line before the event is skipped.
\<close>

theorem height_conversion_failure_not_logged:
  "SafeUint64 (sample_deps all_ok) (- 1) = Inl ''negative value''
   \<and> case_chLogs (sample_deps all_ok) (tx_event evm_attrs (- 1) [1, 2])
        (fst (subscribed_state (sample_deps all_ok)))
        (snd (subscribed_state (sample_deps all_ok)))
       = (Continue, snd (subscribed_state (sample_deps all_ok)))
   \<and> filter is_logger (trace (snd (subscribed_state (sample_deps all_ok)))) = []
   \<and> start_loop (sample_deps all_ok) [] NilChan
        (Chan [tx_event evm_attrs (- 1) [1, 2]] True)
        (fst (subscribed_state (sample_deps all_ok)))
        (snd (subscribed_state (sample_deps all_ok)))
       = (Exited, snd (subscribed_state (sample_deps all_ok)))
   \<and> filter is_logger (trace (snd (case_chLogs (sample_deps all_ok)
        (tx_event evm_attrs 5 [])
        (fst (subscribed_state (sample_deps all_ok)))
        (snd (subscribed_state (sample_deps all_ok))))))
       = [Logger_Error ''fail to decode evm tx response'' ''error'' ''empty tx response'']"
proof -
  let ?d = "sample_deps all_ok"
  let ?s = "fst (subscribed_state ?d)"
  let ?w = "snd (subscribed_state ?d)"
  have skip: "case_chLogs ?d (tx_event evm_attrs (- 1) [1, 2]) ?s ?w = (Continue, ?w)"
    by (simp add: case_chLogs_def sample_tx_simps sample_deps_simps sample_collaborators)
  have "takes_logs [] NilChan (Chan [tx_event evm_attrs (- 1) [1, 2]] True)"
    by (simp add: takes_logs_def takes_blocks_def)
  then have "start_loop ?d [] NilChan (Chan [tx_event evm_attrs (- 1) [1, 2]] True) ?s ?w
      = start_loop ?d [] NilChan (Chan [] True) ?s ?w"
    by (simp add: start_loop_logs_event skip)
  moreover have "start_loop ?d [] NilChan (Chan [] True) ?s ?w = (Exited, ?w)"
    by (simp add: start_loop_logs_closed takes_logs_def takes_blocks_def)
  ultimately show ?thesis
    using skip
    by (simp add: sample_collaborators)
       (simp add: case_chLogs_def sample_tx_simps sample_deps_simps sample_collaborators
          subscribed_state_simps logger_Error_def)
qed

subsection \<open>Lazy subscription\<close>

text \<open>
  C3. On a manager whose streams do not exist yet and an event feed that accepts both
  subscriptions, the first call of \<^verbatim>\<open>HeaderStream()\<close> and the first call of \<^verbatim>\<open>LogStream()\<close>
  do the same set-up: both streams are created (with their segment sizes and capacities),
  the two topics are subscribed to, once each and in this order, and the stream asked for
  is returned. On every manager that holds these two streams, in whatever world, a call
  of either operation changes neither the manager nor the world and returns the stream
  created by the first call; and no other operation (\<^verbatim>\<open>Close\<close>, \<^verbatim>\<open>ListenPendingTx\<close>,
  \<^verbatim>\<open>start\<close>) puts another stream in their place.
\<close>

theorem lazy_subscription_once:
  assumes "headerStream s = None"
    and "client_answer d (trace w) (sub_blocks d) = None"
    and "client_answer d (trace w @ [sub_blocks d]) (sub_evm d) = None"
  shows "HeaderStream d s w =
           Returns (Some (next_ref w)) (init_manager s w) (subscribed_world d w)
    \<and> LogStream d s w =
           Returns (Some (next_ref w + 1)) (init_manager s w) (subscribed_world d w)
    \<and> headers (subscribed_world d w) (next_ref w)
         = NewStream headerStreamSegmentSize headerStreamCapacity
    \<and> logs (subscribed_world d w) (next_ref w + 1)
         = NewStream logStreamSegmentSize logStreamCapacity
    \<and> trace (subscribed_world d w) =
         trace w @ [Subscribe_call streamSubscriberName (blockEvents d) subscribBufferSize,
                    Subscribe_call streamSubscriberName (evmEvents d) subscribBufferSize]
    \<and> (\<forall>s2 w2. headerStream s2 = Some (next_ref w) \<and> logStream s2 = Some (next_ref w + 1) \<longrightarrow>
            HeaderStream d s2 w2 = Returns (Some (next_ref w)) s2 w2
            \<and> LogStream d s2 w2 = Returns (Some (next_ref w + 1)) s2 w2)
    \<and> (\<forall>s2 w2 hash sched chBlocks chLogs.
            fst (snd (Close d s2 w2)) = s2
            \<and> fst (ListenPendingTx hash s2 w2) = s2
            \<and> headerStream (fst (snd (start d sched chBlocks chLogs s2 w2))) = headerStream s2
            \<and> logStream (fst (snd (start d sched chBlocks chLogs s2 w2))) = logStream s2)"
proof -
  have "initSubscriptions d s w = Returns () (init_manager s w) (subscribed_world d w)"
    using assms by (simp add: initSubscriptions_success subscribed_world_def)
  moreover have "initSubscriptions d s2 w2 = Returns () s2 w2"
    if "headerStream s2 = Some (next_ref w)" for s2 w2
    by (rule initSubscriptions_done) (simp add: that)
  ultimately show ?thesis
    by (simp add: HeaderStream_def LogStream_def Close_manager ListenPendingTx_eq start_manager)
       (simp add: init_manager_def subscribed_world_def init_world_def sub_blocks_def sub_evm_def)
qed

text \<open>
  C3 on a freshly constructed manager: the streams get the references 1 and 2, the two
  subscriptions are the only calls made, and a later \<^verbatim>\<open>LogStream()\<close> returns reference 2.
\<close>

theorem lazy_subscription_once_witness:
  "headerStream (fst (NewRPCStreams sample_world)) = None
   \<and> HeaderStream (sample_deps all_ok) (fst (NewRPCStreams sample_world))
        (snd (NewRPCStreams sample_world))
       = Returns (Some 1)
           \<lparr>headerStream = Some 1, logStream = Some 2, pendingTxStream = 0, wg = 0\<rparr>
           (subscribed_world (sample_deps all_ok) (snd (NewRPCStreams sample_world)))
   \<and> trace (subscribed_world (sample_deps all_ok) (snd (NewRPCStreams sample_world)))
       = [Subscribe_call ''ethermint-json-rpc'' ''tm.event=NewBlock'' 1024,
          Subscribe_call ''ethermint-json-rpc'' ''tm.event=Tx AND message.module=evm'' 1024]
   \<and> LogStream (sample_deps all_ok)
        \<lparr>headerStream = Some 1, logStream = Some 2, pendingTxStream = 0, wg = 0\<rparr>
        (subscribed_world (sample_deps all_ok) (snd (NewRPCStreams sample_world)))
       = Returns (Some 2)
           \<lparr>headerStream = Some 1, logStream = Some 2, pendingTxStream = 0, wg = 0\<rparr>
           (subscribed_world (sample_deps all_ok) (snd (NewRPCStreams sample_world)))"
proof -
  let ?s = "fst (NewRPCStreams sample_world)"
  let ?w = "snd (NewRPCStreams sample_world)"
  let ?d = "sample_deps all_ok"
  have fresh: "headerStream ?s = None"
    by (simp add: NewRPCStreams_def)
  have ok1: "client_answer ?d (trace ?w) (sub_blocks ?d) = None"
    by (simp add: sample_deps_def all_ok_def)
  have ok2: "client_answer ?d (trace ?w @ [sub_blocks ?d]) (sub_evm ?d) = None"
    by (simp add: sample_deps_def all_ok_def)
  have m: "init_manager ?s ?w
      = \<lparr>headerStream = Some 1, logStream = Some 2, pendingTxStream = 0, wg = 0\<rparr>"
    by (simp add: init_manager_def NewRPCStreams_def sample_world_def)
  have n: "next_ref ?w = 1"
    by (simp add: NewRPCStreams_def sample_world_def)
  have c: "blockEvents ?d = ''tm.event=NewBlock''"
    "evmEvents ?d = ''tm.event=Tx AND message.module=evm''"
    by (simp_all add: sample_deps_def)
  have t: "trace ?w = []"
    by (simp add: NewRPCStreams_def sample_world_def)
  from lazy_subscription_once[OF fresh ok1 ok2] show ?thesis
    unfolding m n c by (simp add: fresh t streamSubscriberName_def subscribBufferSize_def)
qed

subsection \<open>The bounded stream\<close>

text \<open>
  C4. For every stream created by \<^verbatim>\<open>NewStream n c\<close> and every sequence of \<^verbatim>\<open>Add\<close> calls,
  after the last call (so after any call) the stream retains at most \<^verbatim>\<open>c\<close> items, and the
  retained items are exactly the most recently appended \<^verbatim>\<open>c\<close> items, in append order: all
  the appended items if no more than \<^verbatim>\<open>c\<close> have been appended. With segment size 2 and
  capacity 4, appending 1, 2, 3, 4, 5, 6 one at a time leaves exactly 3, 4, 5, 6.
\<close>

theorem stream_bounded_retention:
  fixes batches :: "'a list list"
  shows "Len (appends (NewStream n c) batches) \<le> c
    \<and> items (appends (NewStream n c) batches) = most_recent c (concat batches)
    \<and> (length (concat batches) \<le> c \<longrightarrow>
         items (appends (NewStream n c) batches) = concat batches)
    \<and> (c \<le> length (concat batches) \<longrightarrow> Len (appends (NewStream n c) batches) = c)
    \<and> items (appends (NewStream 2 4) [[1], [2], [3], [4], [5], [6 :: nat]]) = [3, 4, 5, 6]"
proof -
  have eq: "items (appends (NewStream n c) bs) = most_recent c (concat bs)"
    for bs :: "'b list list"
    using items_appends[of "NewStream n c" bs] by simp
  have "items (appends (NewStream 2 4) [[1], [2], [3], [4], [5], [6 :: nat]]) = [3, 4, 5, 6]"
    using items_appends[of "NewStream 2 4" "[[1], [2], [3], [4], [5], [6 :: nat]]"]
    by (simp add: most_recent_def)
  then show ?thesis
    by (simp add: eq Len_def most_recent_length_le most_recent_fits)
       (simp add: most_recent_def)
qed

text \<open>
  C4 at segment size 2 and capacity 4: after five appends the stream holds the four most
  recent items, after two appends both, and after one batch of seven items the last four.
\<close>

theorem stream_bounded_retention_witness:
  "items (appends (NewStream 2 4) [[1], [2], [3], [4], [5 :: nat]]) = [2, 3, 4, 5]
   \<and> Len (appends (NewStream 2 4) [[1], [2], [3], [4], [5 :: nat]]) = 4
   \<and> items (appends (NewStream 2 4) [[1], [2 :: nat]]) = [1, 2]
   \<and> items (appends (NewStream 2 4) [[1, 2, 3, 4, 5, 6, 7 :: nat]]) = [4, 5, 6, 7]"
proof -
  have five: "(4 :: nat) \<le> length (concat [[1], [2], [3], [4], [5 :: nat]])"
    by simp
  have two: "length (concat [[1], [2 :: nat]]) \<le> 4"
    by simp
  from stream_bounded_retention[of 2 4 "[[1], [2], [3], [4], [5 :: nat]]"] five
  have a: "items (appends (NewStream 2 4) [[1], [2], [3], [4], [5 :: nat]]) = [2, 3, 4, 5]"
    and b: "Len (appends (NewStream 2 4) [[1], [2], [3], [4], [5 :: nat]]) = 4"
    by (simp_all add: most_recent_def)
  from stream_bounded_retention[of 2 4 "[[1], [2 :: nat]]"] two
  have c: "items (appends (NewStream 2 4) [[1], [2 :: nat]]) = [1, 2]"
    by (simp add: most_recent_def)
  from stream_bounded_retention[of 2 4 "[[1, 2, 3, 4, 5, 6, 7 :: nat]]"]
  have d: "items (appends (NewStream 2 4) [[1, 2, 3, 4, 5, 6, 7 :: nat]]) = [4, 5, 6, 7]"
    by (simp add: most_recent_def)
  from a b c d show ?thesis by simp
qed

subsection \<open>The transaction queue\<close>

text \<open>
  C5. A transaction event without the attribute \<^verbatim>\<open>evmTxHashKey\<close> is ignored entirely:
  handling it leaves the whole world as it was (no call to the decoder, no line logged,
  nothing appended), and the loop goes on as if the event had not been there. A queue
  holding only such events never changes the log streams and never reaches the decoder,
  whatever arrives on the new-block queue.
\<close>

theorem non_evm_tx_ignored:
  "(Events ev (evmTxHashKey d) = None \<longrightarrow> case_chLogs d ev s w = (Continue, w))
   \<and> (Events ev (evmTxHashKey d) = None \<and> takes_logs sched chBlocks (Chan (ev # evs) c) \<longrightarrow>
        start_loop d sched chBlocks (Chan (ev # evs) c) s w
          = start_loop d (tl sched) chBlocks (Chan evs c) s w)
   \<and> ((\<forall>e \<in> set (queued chLogs). Events e (evmTxHashKey d) = None) \<longrightarrow>
        logs (snd (start_loop d sched chBlocks chLogs s w)) = logs w
        \<and> filter is_decode (trace (snd (start_loop d sched chBlocks chLogs s w)))
            = filter is_decode (trace w))"
  using non_evm_queue_keeps_logs[of chLogs d sched chBlocks s w]
  by (simp add: logs_non_evm start_loop_logs_event)

text \<open>
  C5 on a transaction event with no attributes, and on a queue of two such events.
\<close>

theorem non_evm_tx_ignored_witness:
  "case_chLogs (sample_deps all_ok) (tx_event Map.empty 5 [1, 2])
       (fst (subscribed_state (sample_deps all_ok))) (snd (subscribed_state (sample_deps all_ok)))
     = (Continue, snd (subscribed_state (sample_deps all_ok)))
   \<and> logs (snd (start_loop (sample_deps all_ok) [] NilChan
         (Chan [tx_event Map.empty 5 [1, 2], tx_event Map.empty 6 [3]] True)
         (fst (subscribed_state (sample_deps all_ok)))
         (snd (subscribed_state (sample_deps all_ok)))))
     = logs (snd (subscribed_state (sample_deps all_ok)))"
proof -
  let ?d = "sample_deps all_ok"
  let ?s = "fst (subscribed_state ?d)"
  let ?w = "snd (subscribed_state ?d)"
  let ?ev = "tx_event Map.empty 5 [1, 2]"
  let ?q = "Chan [?ev, tx_event Map.empty 6 [3]] True"
  have a: "Events ?ev (evmTxHashKey ?d) = None"
    by (simp add: sample_tx_simps)
  have b: "\<forall>e \<in> set (queued ?q). Events e (evmTxHashKey ?d) = None"
    by (simp add: sample_tx_simps)
  from non_evm_tx_ignored[of ?ev ?d ?s ?w "[]" NilChan "[]" True ?q] a b
  show ?thesis by simp
qed

text \<open>
  C6. For an EVM transaction event whose height converts and whose logs decode, the case
  makes one call to the decoder and one call of \<^verbatim>\<open>Add\<close> on the log stream, with the whole
  batch in the decoder's order. So the retained items of the log stream are a suffix of
  the earlier items followed by the batch, the sequence counter advances by the size of
  the batch, and while the capacity is not exceeded the stream holds the earlier items
  followed by the batch.
\<close>

theorem tx_logs_appended_as_one_batch:
  assumes "Events ev (evmTxHashKey d) = Some v" and "Data ev = TxData dataTx"
    and "SafeUint64 d (TxResult_Height dataTx) = Inr height"
    and "DecodeTxLogsFromEvents d (TxResult_Result_Data dataTx) (TxResult_Result_Events dataTx)
           height = Inr txLogs"
    and "logStream s = Some l"
  shows "case_chLogs d ev s w =
      (EndSelect,
       w\<lparr>trace := trace w @ [DecodeTxLogs_call (TxResult_Result_Data dataTx)
                               (TxResult_Result_Events dataTx) height],
         logs := (logs w)(l := Add txLogs (logs w l))\<rparr>)
    \<and> suffix (items (Add txLogs (logs w l))) (items (logs w l) @ txLogs)
    \<and> seq (Add txLogs (logs w l)) = seq (logs w l) + length txLogs
    \<and> (if length (items (logs w l)) + length txLogs \<le> capacity (logs w l)
        then items (Add txLogs (logs w l)) = items (logs w l) @ txLogs else True)"
  using logs_success[OF assms] items_Add_suffix[of txLogs "logs w l"]
    items_Add_fits[of "logs w l" txLogs]
  by simp

text \<open>
  C6 on a transaction with two logs and an empty log stream.
\<close>

theorem tx_logs_appended_as_one_batch_witness:
  "case_chLogs (sample_deps all_ok) (tx_event evm_attrs 5 [1, 2])
       (fst (subscribed_state (sample_deps all_ok))) (snd (subscribed_state (sample_deps all_ok)))
     = (EndSelect,
        (snd (subscribed_state (sample_deps all_ok)))
          \<lparr>trace := trace (snd (subscribed_state (sample_deps all_ok)))
                     @ [DecodeTxLogs_call [1, 2] [] 5],
           logs := (logs (snd (subscribed_state (sample_deps all_ok))))
                     (2 := Add [Log [1] [] [], Log [2] [] []] (NewStream 2048 65536))\<rparr>)
   \<and> items (Add [Log [1] [] [], Log [2] [] []] (NewStream 2048 65536))
       = [Log [1] [] [], Log [2] [] []]"
proof -
  let ?d = "sample_deps all_ok"
  let ?ev = "tx_event evm_attrs 5 [1, 2]"
  let ?tx = "\<lparr>TxResult_Height = 5, TxResult_Result_Data = [1, 2], TxResult_Result_Events = []\<rparr>"
  have a: "Events ?ev (evmTxHashKey ?d) = Some [''0xabc'']"
    by (simp add: sample_tx_simps sample_deps_simps)
  have b: "Data ?ev = TxData ?tx"
    by (simp add: sample_tx_simps)
  have c: "SafeUint64 ?d (TxResult_Height ?tx) = Inr 5"
    by (simp add: sample_collaborators)
  have e: "DecodeTxLogsFromEvents ?d (TxResult_Result_Data ?tx) (TxResult_Result_Events ?tx) 5
      = Inr [Log [1] [] [], Log [2] [] []]"
    by (simp add: sample_collaborators)
  have l: "logStream (fst (subscribed_state ?d)) = Some 2"
    by (simp add: subscribed_state_simps)
  from tx_logs_appended_as_one_batch[OF a b c e l, of "snd (subscribed_state ?d)"]
  show ?thesis
    by (simp add: subscribed_state_simps)
qed

subsection \<open>Termination of the loop\<close>

text \<open>
  C7. Started on the two queues of its subscriptions, with both streams created, \<^verbatim>\<open>start\<close>
  leaves its loop if and only if the event feed closes both queues; otherwise it stays
  blocked in \<^verbatim>\<open>select\<close>, registered with the wait group. In both cases it has handled
  every event of both queues, each queue in its order, also the events that arrive after
  the other queue was closed. When it leaves, it signs off from the wait group and
  requests \<^verbatim>\<open>UnsubscribeAll\<close>, logging the error of that request if there is one.
\<close>

theorem demux_exits_only_when_both_closed:
  assumes "headerStream s \<noteq> None" and "logStream s \<noteq> None"
  shows "start d sched (Chan bs cb) (Chan ls cl) s w =
      (if cb \<and> cl
       then (case UnsubscribeAll d streamSubscriberName
                    (foldl (handle d s) w (recv_order sched (Chan bs cb) (Chan ls cl))) of
               (Some err, w2) \<Rightarrow>
                 (Exited, s, logger_Error ''failed to unsubscribe'' ''err'' err w2)
             | (None, w2) \<Rightarrow> (Exited, s, w2))
       else (Blocked, s\<lparr>wg := wg s + 1\<rparr>,
             foldl (handle d s) w (recv_order sched (Chan bs cb) (Chan ls cl))))
    \<and> [x. Inl x \<leftarrow> recv_order sched (Chan bs cb) (Chan ls cl)] = bs
    \<and> [x. Inr x \<leftarrow> recv_order sched (Chan bs cb) (Chan ls cl)] = ls"
proof -
  have "start_loop d sched (Chan bs cb) (Chan ls cl) (s\<lparr>wg := wg s + 1\<rparr>) w =
      (if cb \<and> cl then Exited else Blocked,
       foldl (handle d s) w (recv_order sched (Chan bs cb) (Chan ls cl)))"
    using assms
    by (simp add: start_loop_fold expected_end_Chan foldl_handle_ignores_wg)
  then show ?thesis
    by (simp add: start_def recv_order_blocks recv_order_logs split: prod.splits option.splits)
qed

text \<open>
  C7 on one new-block event and one transaction event with two logs: the loop leaves when
  both queues are closed; when only the new-block queue is closed it stays blocked, with
  one header in the header stream, the two logs in the log stream and nothing in the
  pending-transaction stream.
\<close>

theorem demux_exits_only_when_both_closed_witness:
  "fst (start (sample_deps all_ok) [] (Chan [block_event 5 [9]] True)
          (Chan [tx_event evm_attrs 5 [1, 2]] True)
          (fst (subscribed_state (sample_deps all_ok)))
          (snd (subscribed_state (sample_deps all_ok)))) = Exited
   \<and> fst (start (sample_deps all_ok) [] (Chan [block_event 5 [9]] True)
          (Chan [tx_event evm_attrs 5 [1, 2]] False)
          (fst (subscribed_state (sample_deps all_ok)))
          (snd (subscribed_state (sample_deps all_ok)))) = Blocked
   \<and> Len (headers (snd (snd (start (sample_deps all_ok) [] (Chan [block_event 5 [9]] True)
          (Chan [tx_event evm_attrs 5 [1, 2]] False)
          (fst (subscribed_state (sample_deps all_ok)))
          (snd (subscribed_state (sample_deps all_ok)))))) 1) = 1
   \<and> Len (logs (snd (snd (start (sample_deps all_ok) [] (Chan [block_event 5 [9]] True)
          (Chan [tx_event evm_attrs 5 [1, 2]] False)
          (fst (subscribed_state (sample_deps all_ok)))
          (snd (subscribed_state (sample_deps all_ok)))))) 2) = 2
   \<and> Len (hashes (snd (snd (start (sample_deps all_ok) [] (Chan [block_event 5 [9]] True)
          (Chan [tx_event evm_attrs 5 [1, 2]] False)
          (fst (subscribed_state (sample_deps all_ok)))
          (snd (subscribed_state (sample_deps all_ok)))))) 0) = 0"
proof -
  let ?d = "sample_deps all_ok"
  let ?s = "fst (subscribed_state ?d)"
  let ?w = "snd (subscribed_state ?d)"
  have h: "headerStream ?s \<noteq> None" and l: "logStream ?s \<noteq> None"
    by (simp_all add: subscribed_state_simps)
  from demux_exits_only_when_both_closed[OF h l, of ?d "[]" "[block_event 5 [9]]" True
      "[tx_event evm_attrs 5 [1, 2]]" True ?w]
  have a: "fst (start ?d [] (Chan [block_event 5 [9]] True)
          (Chan [tx_event evm_attrs 5 [1, 2]] True) ?s ?w) = Exited"
    by (simp split: prod.splits option.splits)
  from demux_exits_only_when_both_closed[OF h l, of ?d "[]" "[block_event 5 [9]]" True
      "[tx_event evm_attrs 5 [1, 2]]" False ?w]
  have b: "start ?d [] (Chan [block_event 5 [9]] True)
          (Chan [tx_event evm_attrs 5 [1, 2]] False) ?s ?w
      = (Blocked, ?s\<lparr>wg := wg ?s + 1\<rparr>,
         foldl (handle ?d ?s) ?w [Inl (block_event 5 [9]), Inr (tx_event evm_attrs 5 [1, 2])])"
    by (simp add: sample_order)
  show ?thesis
    unfolding b using a
    by (simp add: subscribed_state_simps sample_block_handled sample_tx_handled Len_def
        Add_def evict_def NewStream_def items_def)
qed

subsection \<open>Failing subscriptions\<close>

text \<open>
  C8. On a manager whose streams do not exist yet, when the first subscription fails, or
  the first succeeds and the second fails, \<^verbatim>\<open>initSubscriptions\<close> panics with the error of
  the failed subscription, and so do \<^verbatim>\<open>HeaderStream()\<close> and \<^verbatim>\<open>LogStream()\<close>: no error value
  is returned to the caller, and no demultiplexing task is started.
\<close>

theorem subscription_failure_is_fatal:
  assumes "headerStream s = None"
    and "client_answer d (trace w) (sub_blocks d) = Some err
       \<or> client_answer d (trace w) (sub_blocks d) = None
         \<and> client_answer d (trace w @ [sub_blocks d]) (sub_evm d) = Some err"
  shows "panics_with err (initSubscriptions d s w)
    \<and> panics_with err (HeaderStream d s w)
    \<and> panics_with err (LogStream d s w)
    \<and> goroutines (result_world (HeaderStream d s w)) = goroutines w
    \<and> goroutines (result_world (LogStream d s w)) = goroutines w"
  using assms(2)
proof
  assume "client_answer d (trace w) (sub_blocks d) = Some err"
  with assms(1) show ?thesis
    by (simp add: HeaderStream_def LogStream_def initSubscriptions_first_fails panics_with_def
        init_world_def)
next
  assume "client_answer d (trace w) (sub_blocks d) = None
         \<and> client_answer d (trace w @ [sub_blocks d]) (sub_evm d) = Some err"
  with assms(1) show ?thesis
    by (simp add: HeaderStream_def LogStream_def initSubscriptions_second_fails panics_with_def
        init_world_def split: option.splits)
qed

text \<open>
  C8 on an event feed that refuses every subscription, and on one that refuses the
  second.
\<close>

theorem subscription_failure_is_fatal_witness:
  "panics_with ''event feed not running''
     (HeaderStream (sample_deps first_subscribe_fails) (fst (NewRPCStreams sample_world))
        (snd (NewRPCStreams sample_world)))
   \<and> panics_with ''subscription limit reached''
     (LogStream (sample_deps second_subscribe_fails) (fst (NewRPCStreams sample_world))
        (snd (NewRPCStreams sample_world)))"
  using subscription_failure_is_fatal[of "fst (NewRPCStreams sample_world)"
      "sample_deps first_subscribe_fails" "snd (NewRPCStreams sample_world)"
      "''event feed not running''"]
    subscription_failure_is_fatal[of "fst (NewRPCStreams sample_world)"
      "sample_deps second_subscribe_fails" "snd (NewRPCStreams sample_world)"
      "''subscription limit reached''"]
  by (simp add: NewRPCStreams_def sample_world_def sample_deps_def first_subscribe_fails_def
      second_subscribe_fails_def sub_blocks_def sub_evm_def)

text \<open>
  C10. When the new-block subscription succeeds and the EVM-transaction subscription
  fails, \<^verbatim>\<open>initSubscriptions\<close> requests \<^verbatim>\<open>UnsubscribeAll\<close> for its subscriber after the two
  subscription requests and before it panics with the error of the second; an error of
  that request is logged as "failed to unsubscribe". When the request succeeds, the event
  feed holds no subscription of this subscriber any more; no demultiplexing task is
  started.
\<close>

theorem failed_setup_unsubscribes_before_panic:
  assumes "headerStream s = None"
    and "client_answer d (trace w) (sub_blocks d) = None"
    and "client_answer d (trace w @ [sub_blocks d]) (sub_evm d) = Some err"
  shows "initSubscriptions d s w =
           Panics err (init_manager s w) (result_world (initSubscriptions d s w))
    \<and> trace (result_world (initSubscriptions d s w)) =
         trace w @
         [Subscribe_call streamSubscriberName (blockEvents d) subscribBufferSize,
          Subscribe_call streamSubscriberName (evmEvents d) subscribBufferSize,
          UnsubscribeAll_call streamSubscriberName] @
         (case client_answer d (trace w @ [sub_blocks d, sub_evm d]) unsub_all of
            Some err' \<Rightarrow> [Logger_Error ''failed to unsubscribe'' ''err'' err']
          | None \<Rightarrow> [])
    \<and> (if client_answer d (trace w @ [sub_blocks d, sub_evm d]) unsub_all = None
        then filter (\<lambda>c. fst c = streamSubscriberName)
               (active (result_world (initSubscriptions d s w))) = []
        else active (result_world (initSubscriptions d s w))
               = active w @ [(streamSubscriberName, blockEvents d)])
    \<and> goroutines (result_world (initSubscriptions d s w)) = goroutines w"
  using assms
  by (simp add: initSubscriptions_second_fails init_world_def sub_blocks_def sub_evm_def
      unsub_all_def split: option.splits)

text \<open>
  C10 on an event feed that refuses the second subscription and accepts the
  unsubscription.
\<close>

theorem failed_setup_unsubscribes_before_panic_witness:
  "initSubscriptions (sample_deps second_subscribe_fails) (fst (NewRPCStreams sample_world))
       (snd (NewRPCStreams sample_world))
     = Panics ''subscription limit reached''
         \<lparr>headerStream = Some 1, logStream = Some 2, pendingTxStream = 0, wg = 0\<rparr>
         (result_world (initSubscriptions (sample_deps second_subscribe_fails)
            (fst (NewRPCStreams sample_world)) (snd (NewRPCStreams sample_world))))
   \<and> trace (result_world (initSubscriptions (sample_deps second_subscribe_fails)
        (fst (NewRPCStreams sample_world)) (snd (NewRPCStreams sample_world))))
     = [Subscribe_call ''ethermint-json-rpc'' ''tm.event=NewBlock'' 1024,
        Subscribe_call ''ethermint-json-rpc'' ''tm.event=Tx AND message.module=evm'' 1024,
        UnsubscribeAll_call ''ethermint-json-rpc'']
   \<and> filter (\<lambda>c. fst c = ''ethermint-json-rpc'')
       (active (result_world (initSubscriptions (sample_deps second_subscribe_fails)
          (fst (NewRPCStreams sample_world)) (snd (NewRPCStreams sample_world))))) = []"
proof -
  let ?s = "fst (NewRPCStreams sample_world)"
  let ?w = "snd (NewRPCStreams sample_world)"
  let ?d = "sample_deps second_subscribe_fails"
  have fresh: "headerStream ?s = None"
    by (simp add: fresh_simps)
  have ok1: "client_answer ?d (trace ?w) (sub_blocks ?d) = None"
    by (simp add: sample_deps_simps fresh_simps sample_calls second_subscribe_fails_def)
  have fail2: "client_answer ?d (trace ?w @ [sub_blocks ?d]) (sub_evm ?d)
      = Some ''subscription limit reached''"
    by (simp add: sample_deps_simps fresh_simps sample_calls second_subscribe_fails_def)
  have ok3: "client_answer ?d (trace ?w @ [sub_blocks ?d, sub_evm ?d]) unsub_all = None"
    by (simp add: sample_deps_simps fresh_simps sample_calls second_subscribe_fails_def)
  have m: "init_manager ?s ?w
      = \<lparr>headerStream = Some 1, logStream = Some 2, pendingTxStream = 0, wg = 0\<rparr>"
    by (simp add: init_manager_def fresh_simps)
  from failed_setup_unsubscribes_before_panic[OF fresh ok1 fail2] show ?thesis
    unfolding m ok3
    by (simp add: fresh_simps sample_deps_simps streamSubscriberName_def subscribBufferSize_def
        filter_empty_conv)
qed

subsection \<open>Pending transactions\<close>

text \<open>
  C9. \<^verbatim>\<open>ListenPendingTx(hash)\<close> calls \<^verbatim>\<open>Add\<close> with the one hash on the pending-transaction
  stream and changes nothing else, neither in the manager nor in the world. A manager
  built by \<^verbatim>\<open>NewRPCStreams\<close> has that stream from the start and no header or log stream;
  after any number of \<^verbatim>\<open>ListenPendingTx\<close> calls the manager is the same (its header and
  log streams still do not exist), and the world differs only in the pending-transaction
  stream, which has received the hashes one by one, and holds them all while their number
  does not exceed its capacity.
\<close>

theorem ListenPendingTx_only_pending:
  "ListenPendingTx h s w =
     (s, w\<lparr>hashes := (hashes w)(pendingTxStream s := Add [h] (hashes w (pendingTxStream s)))\<rparr>)
   \<and> headerStream (fst (NewRPCStreams w0)) = None
   \<and> logStream (fst (NewRPCStreams w0)) = None
   \<and> hashes (snd (NewRPCStreams w0)) (pendingTxStream (fst (NewRPCStreams w0)))
       = NewStream txStreamSegmentSize txStreamCapacity
   \<and> (case NewRPCStreams w0 of (s0, w1) \<Rightarrow>
        ingest_all hs s0 w1 =
          (s0, w1\<lparr>hashes := (hashes w1)(pendingTxStream s0 :=
                    appends (NewStream txStreamSegmentSize txStreamCapacity)
                      (map (\<lambda>h. [h]) hs))\<rparr>))
   \<and> (if length hs \<le> txStreamCapacity
       then items (appends (NewStream txStreamSegmentSize txStreamCapacity) (map (\<lambda>h. [h]) hs)) = hs
       else True)"
proof -
  have "length (concat (map (\<lambda>h. [h]) hs)) = length hs" "concat (map (\<lambda>h. [h]) hs) = hs"
    by (induction hs) simp_all
  then have "length hs \<le> txStreamCapacity \<Longrightarrow>
      items (appends (NewStream txStreamSegmentSize txStreamCapacity) (map (\<lambda>h. [h]) hs)) = hs"
    using items_appends_fits[of "NewStream txStreamSegmentSize txStreamCapacity" "map (\<lambda>h. [h]) hs"]
    by (simp add: NewStream_def items_def)
  then show ?thesis
    by (simp add: ListenPendingTx_eq ingest_all_eq NewRPCStreams_def)
qed

text \<open>
  C9 on a freshly constructed manager and two hashes.
\<close>

theorem ListenPendingTx_only_pending_witness:
  "ingest_all [[1], [2]] (fst (NewRPCStreams sample_world)) (snd (NewRPCStreams sample_world))
     = (\<lparr>headerStream = None, logStream = None, pendingTxStream = 0, wg = 0\<rparr>,
        (snd (NewRPCStreams sample_world))
          \<lparr>hashes := (hashes (snd (NewRPCStreams sample_world)))
             (0 := appends (NewStream txStreamSegmentSize txStreamCapacity) [[[1]], [[2]]])\<rparr>)
   \<and> items (appends (NewStream txStreamSegmentSize txStreamCapacity) [[[1]], [[2 :: 8 word]]])
       = [[1], [2]]"
  using ListenPendingTx_only_pending[of "[1]" "fst (NewRPCStreams sample_world)"
      "snd (NewRPCStreams sample_world)" sample_world "[[1], [2]]"]
  by (simp add: fresh_simps txStreamCapacity_def split_beta del: ingest_all.simps)


end
